theory Spec2Isabelle
  imports Complex_Main
begin

section \<open>The syntax tree\<close>

text \<open>
  The rule \<open>prefer-optional-chain\<close> reads an immutable ESTree. A node value of the model
  stands for one node object: its header carries the object's address \<open>nid\<close>, so two
  references to the same object are equal values, and reference equality (\<open>===\<close> on
  nodes, the keys of the \<open>WeakMap\<close> cache) is equality of node values.
\<close>

datatype 'a nullable = Undefined | Null | Val 'a

text \<open>What a node is to its parent; all that \<open>isValidChainExpressionToLookThrough\<close> reads
  of \<open>node.parent\<close>.\<close>

datatype parent_link = ParentMemberObject | ParentCallCallee | ParentOther

type_synonym position = "nat \<times> nat"

record hdr =
  nid :: nat
  parent :: parent_link
  loc_start :: position
  loc_end :: position
  range_of :: "nat \<times> nat"

text \<open>The value of a \<open>Literal\<close>; a regular expression literal holds an object, known by
  its address.\<close>

datatype lit_value =
    LNull | LBoolean bool | LNumber rat | LString string | LBigInt int | LRegExp nat

text \<open>Node kinds that \<open>compareNodesUncached\<close> names without reading their fields, and every
  other kind, by its tag.\<close>

datatype kind =
    ArrayExpression | ArrowFunctionExpression | ClassExpression | FunctionExpression
  | JSXElement | JSXFragment | NewExpression | ObjectExpression
  | AssignmentExpression | ArrayPattern | ObjectPattern
  | UpdateExpression | YieldExpression | MetaProperty
  | OtherKind string

datatype node =
    Identifier hdr string
  | PrivateIdentifier hdr string
  | Literal hdr string lit_value
  | MemberExpression hdr node node bool bool
  | CallExpression hdr node "node list" "node nullable" bool
  | ChainExpression hdr node
  | TSNonNullExpression hdr node
  | TemplateLiteral hdr "node list" "node list"
  | TSTemplateLiteralType hdr "node list" "node list"
  | TemplateElement hdr "string option"
  | BinaryExpression hdr string node node
  | UnaryExpression hdr string node
  | LogicalExpression hdr string node node
  | GenericNode hdr kind "(string \<times> slot) list"
and slot = One "node nullable" | Many "node nullable list"

text \<open>
  \<open>MemberExpression h object property computed optional\<close>,
  \<open>CallExpression h callee arguments typeArguments optional\<close>,
  \<open>TemplateLiteral h quasis expressions\<close>, \<open>TSTemplateLiteralType h quasis types\<close>,
  \<open>TemplateElement h cooked\<close> (the field \<open>value.cooked\<close>),
  \<open>BinaryExpression h operator left right\<close>, \<open>UnaryExpression h operator argument\<close>,
  \<open>LogicalExpression h operator left right\<close>.
  A \<open>slot\<close> is what a dynamic read \<open>node[key]\<close> gives: one value or an array.
\<close>

datatype node_type =
    TIdentifier | TPrivateIdentifier | TLiteral | TMemberExpression | TCallExpression
  | TChainExpression | TTSNonNullExpression | TTemplateLiteral | TTSTemplateLiteralType
  | TTemplateElement | TBinaryExpression | TUnaryExpression | TLogicalExpression | TKind kind

fun ntype :: "node \<Rightarrow> node_type" where
  "ntype (Identifier h s) = TIdentifier"
| "ntype (PrivateIdentifier h s) = TPrivateIdentifier"
| "ntype (Literal h r v) = TLiteral"
| "ntype (MemberExpression h ob p cm opt) = TMemberExpression"
| "ntype (CallExpression h cl as ta opt) = TCallExpression"
| "ntype (ChainExpression h e) = TChainExpression"
| "ntype (TSNonNullExpression h e) = TTSNonNullExpression"
| "ntype (TemplateLiteral h qs es) = TTemplateLiteral"
| "ntype (TSTemplateLiteralType h qs ts) = TTSTemplateLiteralType"
| "ntype (TemplateElement h ck) = TTemplateElement"
| "ntype (BinaryExpression h opr l r) = TBinaryExpression"
| "ntype (UnaryExpression h opr ar) = TUnaryExpression"
| "ntype (LogicalExpression h opr l r) = TLogicalExpression"
| "ntype (GenericNode h k fs) = TKind k"

fun header :: "node \<Rightarrow> hdr" where
  "header (Identifier h s) = h"
| "header (PrivateIdentifier h s) = h"
| "header (Literal h r v) = h"
| "header (MemberExpression h ob p cm opt) = h"
| "header (CallExpression h cl as ta opt) = h"
| "header (ChainExpression h e) = h"
| "header (TSNonNullExpression h e) = h"
| "header (TemplateLiteral h qs es) = h"
| "header (TSTemplateLiteralType h qs ts) = h"
| "header (TemplateElement h ck) = h"
| "header (BinaryExpression h opr l r) = h"
| "header (UnaryExpression h opr ar) = h"
| "header (LogicalExpression h opr l r) = h"
| "header (GenericNode h k fs) = h"

text \<open>The dynamic read \<open>node[key]\<close> of \<open>compareByVisiting\<close>, on the child fields of each
  kind; a key the object lacks reads \<open>undefined\<close>.\<close>

fun get_field :: "node \<Rightarrow> string \<Rightarrow> slot" where
  "get_field (MemberExpression h ob p cm opt) k =
     (if k = ''object'' then One (Val ob) else if k = ''property'' then One (Val p)
      else One Undefined)"
| "get_field (CallExpression h cl as ta opt) k =
     (if k = ''callee'' then One (Val cl) else if k = ''arguments'' then Many (map Val as)
      else if k = ''typeArguments'' then One ta else One Undefined)"
| "get_field (ChainExpression h e) k = (if k = ''expression'' then One (Val e) else One Undefined)"
| "get_field (TSNonNullExpression h e) k =
     (if k = ''expression'' then One (Val e) else One Undefined)"
| "get_field (TemplateLiteral h qs es) k =
     (if k = ''quasis'' then Many (map Val qs) else if k = ''expressions'' then Many (map Val es)
      else One Undefined)"
| "get_field (TSTemplateLiteralType h qs ts) k =
     (if k = ''quasis'' then Many (map Val qs) else if k = ''types'' then Many (map Val ts)
      else One Undefined)"
| "get_field (BinaryExpression h opr l r) k =
     (if k = ''left'' then One (Val l) else if k = ''right'' then One (Val r) else One Undefined)"
| "get_field (UnaryExpression h opr ar) k =
     (if k = ''argument'' then One (Val ar) else One Undefined)"
| "get_field (LogicalExpression h opr l r) k =
     (if k = ''left'' then One (Val l) else if k = ''right'' then One (Val r) else One Undefined)"
| "get_field (GenericNode h k' fs) k = (case map_of fs k of None \<Rightarrow> One Undefined | Some s \<Rightarrow> s)"
| "get_field n k = One Undefined"

section \<open>The structural comparator\<close>

datatype NodeComparisonResult = Equal | Subset | Invalid

text \<open>What a call can throw: \<open>RangeError\<close> when the call stack is exhausted, \<open>TypeError\<close>
  on a property read of \<open>null\<close> or \<open>undefined\<close>.\<close>

datatype failure = RangeError | TypeError

text \<open>\<open>COMPARE_NODES_CACHE\<close>: a \<open>WeakMap\<close> of \<open>WeakMap\<close>s, keyed by node objects.\<close>

type_synonym cache = "node \<Rightarrow> node \<Rightarrow> NodeComparisonResult option"

type_synonym ('a, 's) res = "failure + ('a \<times> 's)"

text \<open>The recursive call, as the helpers see it: it takes and returns the state \<open>'s\<close> that
  the comparator keeps between calls (the cache, for \<open>compareNodes\<close>).\<close>

type_synonym 's comparer =
  "'s \<Rightarrow> node nullable \<Rightarrow> node nullable \<Rightarrow> (NodeComparisonResult, 's) res"

text \<open>The table of the package \<open>@typescript-eslint/visitor-keys\<close>, a parameter here:
  \<open>None\<close> for a kind it does not list.\<close>

type_synonym visitor_keys = "node_type \<Rightarrow> string list option"

definition bind_res :: "('a, 's) res \<Rightarrow> ('a \<Rightarrow> 's \<Rightarrow> ('b, 's) res) \<Rightarrow> ('b, 's) res" where
  "bind_res m f = (case m of Inl e \<Rightarrow> Inl e | Inr (r, c) \<Rightarrow> f r c)"

definition is_nullish :: "'a nullable \<Rightarrow> bool" where
  "is_nullish v = (case v of Val x \<Rightarrow> False | _ \<Rightarrow> True)"

definition slot_nullish :: "slot \<Rightarrow> bool" where
  "slot_nullish s = (case s of One v \<Rightarrow> is_nullish v | Many vs \<Rightarrow> False)"

definition compareUnknownValues :: "'s comparer \<Rightarrow> 's \<Rightarrow> slot \<Rightarrow> slot \<Rightarrow> (NodeComparisonResult, 's) res" where
  "compareUnknownValues cmp c valueA valueB =
     (if slot_nullish valueA \<or> slot_nullish valueB then
        (if valueA \<noteq> valueB then Inr (Invalid, c) else Inr (Equal, c))
      else (case (valueA, valueB) of
              (One (Val a), One (Val b)) \<Rightarrow> cmp c (Val a) (Val b)
            | _ \<Rightarrow> Inr (Invalid, c)))"

text \<open>The callback of \<open>arrayA.every\<close> in \<open>compareArrays\<close>, over the paired elements; it stops
  at the first element that is not equal.\<close>

fun every_equal :: "'s comparer \<Rightarrow> 's \<Rightarrow> (node nullable \<times> node nullable) list \<Rightarrow> (bool, 's) res" where
  "every_equal cmp c [] = Inr (True, c)"
| "every_equal cmp c ((elA, elB) # rest) =
     (if is_nullish elA \<or> is_nullish elB then
        (if elA = elB then every_equal cmp c rest else Inr (False, c))
      else bind_res (compareUnknownValues cmp c (One elA) (One elB))
             (\<lambda>r c'. if r = Equal then every_equal cmp c' rest else Inr (False, c')))"

text \<open>\<open>arrayB\<close> is whatever the other node holds under the key: reading \<open>.length\<close> of
  \<open>null\<close> or \<open>undefined\<close> throws, and of a node gives \<open>undefined\<close>.\<close>

definition compareArrays :: "'s comparer \<Rightarrow> 's \<Rightarrow> node nullable list \<Rightarrow> slot \<Rightarrow> (NodeComparisonResult, 's) res" where
  "compareArrays cmp c arrayA arrayB =
     (case arrayB of
        One (Val b) \<Rightarrow> Inr (Invalid, c)
      | One _ \<Rightarrow> Inl TypeError
      | Many bs \<Rightarrow>
          if length arrayA \<noteq> length bs then Inr (Invalid, c)
          else bind_res (every_equal cmp c (zip arrayA bs))
                 (\<lambda>result c'. if result then Inr (Equal, c') else Inr (Invalid, c')))"

definition isValidChainExpressionToLookThrough :: "node \<Rightarrow> bool" where
  "isValidChainExpressionToLookThrough n =
     (parent (header n) \<noteq> ParentMemberObject \<and> parent (header n) \<noteq> ParentCallCallee
      \<and> ntype n = TChainExpression)"

fun visit_keys :: "'s comparer \<Rightarrow> 's \<Rightarrow> node \<Rightarrow> node \<Rightarrow> string list \<Rightarrow> (NodeComparisonResult, 's) res" where
  "visit_keys cmp c nodeA nodeB [] = Inr (Equal, c)"
| "visit_keys cmp c nodeA nodeB (key # keys) =
     (case get_field nodeA key of
        Many arrayA \<Rightarrow>
          bind_res (compareArrays cmp c arrayA (get_field nodeB key))
            (\<lambda>result c'. if result \<noteq> Equal then Inr (Invalid, c')
                          else visit_keys cmp c' nodeA nodeB keys)
      | valueA \<Rightarrow>
          bind_res (compareUnknownValues cmp c valueA (get_field nodeB key))
            (\<lambda>result c'. if result \<noteq> Equal then Inr (Invalid, c')
                          else visit_keys cmp c' nodeA nodeB keys))"

definition compareByVisiting :: "visitor_keys \<Rightarrow> 's comparer \<Rightarrow> 's \<Rightarrow> node \<Rightarrow> node \<Rightarrow> (NodeComparisonResult, 's) res" where
  "compareByVisiting visitorKeys cmp c nodeA nodeB =
     (case visitorKeys (ntype nodeA) of
        None \<Rightarrow> Inr (Invalid, c)
      | Some currentVisitorKeys \<Rightarrow>
          if currentVisitorKeys = [] then Inr (Equal, c)
          else visit_keys cmp c nodeA nodeB currentVisitorKeys)"

text \<open>The field \<open>expression\<close> of a \<open>ChainExpression\<close> or \<open>TSNonNullExpression\<close>.\<close>

definition expression :: "node \<Rightarrow> node nullable" where
  "expression n = (case n of ChainExpression h e \<Rightarrow> Val e | TSNonNullExpression h e \<Rightarrow> Val e
                   | _ \<Rightarrow> Undefined)"

text \<open>The kinds whose \<open>case\<close> returns \<open>Invalid\<close> at once.\<close>

definition never_comparable :: "kind \<Rightarrow> bool" where
  "never_comparable k =
     (k \<in> {ArrayExpression, ArrowFunctionExpression, ClassExpression, FunctionExpression,
            JSXElement, JSXFragment, NewExpression, ObjectExpression,
            AssignmentExpression, ArrayPattern, ObjectPattern,
            UpdateExpression, YieldExpression})"

definition subset_or_invalid :: "(NodeComparisonResult, 's) res \<Rightarrow> (NodeComparisonResult, 's) res" where
  "subset_or_invalid m =
     bind_res m (\<lambda>r c'. if r \<noteq> Invalid then Inr (Subset, c') else Inr (Invalid, c'))"

text \<open>The branch \<open>nodeA.type !== nodeB.type\<close>.\<close>

definition compareDifferentTypes :: "'s comparer \<Rightarrow> 's \<Rightarrow> node \<Rightarrow> node \<Rightarrow> (NodeComparisonResult, 's) res" where
  "compareDifferentTypes cmp c nodeA nodeB =
     (if isValidChainExpressionToLookThrough nodeA then cmp c (expression nodeA) (Val nodeB)
      else if isValidChainExpressionToLookThrough nodeB then cmp c (Val nodeA) (expression nodeB)
      else if ntype nodeA = TTSNonNullExpression then cmp c (expression nodeA) (Val nodeB)
      else if ntype nodeB = TTSNonNullExpression then cmp c (Val nodeA) (expression nodeB)
      else if ntype nodeA = TCallExpression \<or> ntype nodeA = TIdentifier
              \<or> ntype nodeA = TMemberExpression \<or> ntype nodeA = TKind MetaProperty then
        (case nodeB of
           MemberExpression hB objectB propertyB computedB optionalB \<Rightarrow>
             if ntype propertyB = TPrivateIdentifier then Inr (Invalid, c)
             else subset_or_invalid (cmp c (Val nodeA) (Val objectB))
         | CallExpression hB calleeB argumentsB typeArgumentsB optionalB \<Rightarrow>
             subset_or_invalid (cmp c (Val nodeA) (Val calleeB))
         | _ \<Rightarrow> Inr (Invalid, c))
      else Inr (Invalid, c))"

text \<open>The \<open>switch (nodeA.type)\<close>, reached when both nodes have the same type.\<close>

definition compareSameType :: "visitor_keys \<Rightarrow> 's comparer \<Rightarrow> 's \<Rightarrow> node \<Rightarrow> node \<Rightarrow> (NodeComparisonResult, 's) res" where
  "compareSameType visitorKeys cmp c nodeA nodeB =
     (case nodeA of
        GenericNode hA k fsA \<Rightarrow>
          if never_comparable k then Inr (Invalid, c)
          else compareByVisiting visitorKeys cmp c nodeA nodeB
      | CallExpression hA calleeA argumentsA typeArgumentsA optionalA \<Rightarrow>
          (case nodeB of
             CallExpression hB calleeB argumentsB typeArgumentsB optionalB \<Rightarrow>
               bind_res (cmp c (Val nodeA) (Val calleeB)) (\<lambda>aSubsetOfB c1.
                 if aSubsetOfB \<noteq> Invalid then Inr (Subset, c1)
                 else bind_res (cmp c1 (Val calleeA) (Val calleeB)) (\<lambda>calleeCompare c2.
                   if calleeCompare \<noteq> Equal then Inr (Invalid, c2)
                   else bind_res (compareArrays cmp c2 (map Val argumentsA) (Many (map Val argumentsB)))
                     (\<lambda>argumentCompare c3.
                       if argumentCompare \<noteq> Equal then Inr (Invalid, c3)
                       else bind_res (cmp c3 typeArgumentsA typeArgumentsB) (\<lambda>typeParamCompare c4.
                         if typeParamCompare = Equal then Inr (Equal, c4)
                         else Inr (Invalid, c4)))))
           | _ \<Rightarrow> Inr (Invalid, c))
      | ChainExpression hA eA \<Rightarrow> cmp c (Val nodeA) (expression nodeB)
      | Identifier hA nameA \<Rightarrow>
          (case nodeB of
             Identifier hB nameB \<Rightarrow> if nameA = nameB then Inr (Equal, c) else Inr (Invalid, c)
           | _ \<Rightarrow> Inr (Invalid, c))
      | PrivateIdentifier hA nameA \<Rightarrow>
          (case nodeB of
             PrivateIdentifier hB nameB \<Rightarrow> if nameA = nameB then Inr (Equal, c) else Inr (Invalid, c)
           | _ \<Rightarrow> Inr (Invalid, c))
      | Literal hA rawA valueA \<Rightarrow>
          (case nodeB of
             Literal hB rawB valueB \<Rightarrow>
               if rawA = rawB \<and> valueA = valueB then Inr (Equal, c) else Inr (Invalid, c)
           | _ \<Rightarrow> Inr (Invalid, c))
      | MemberExpression hA objectA propertyA computedA optionalA \<Rightarrow>
          (case nodeB of
             MemberExpression hB objectB propertyB computedB optionalB \<Rightarrow>
               if ntype propertyB = TPrivateIdentifier then Inr (Invalid, c)
               else bind_res (cmp c (Val nodeA) (Val objectB)) (\<lambda>aSubsetOfB c1.
                 if aSubsetOfB \<noteq> Invalid then Inr (Subset, c1)
                 else if computedA \<noteq> computedB then Inr (Invalid, c1)
                 else bind_res (cmp c1 (Val objectA) (Val objectB)) (\<lambda>objectCompare c2.
                   if objectCompare \<noteq> Equal then Inr (Invalid, c2)
                   else cmp c2 (Val propertyA) (Val propertyB)))
           | _ \<Rightarrow> Inl TypeError)
      | TemplateLiteral hA quasisA expressionsA \<Rightarrow>
          (case nodeB of
             TemplateLiteral hB quasisB expressionsB \<Rightarrow>
               if \<not> (length quasisA = length quasisB
                      \<and> list_all (\<lambda>(elA, elB). elA = elB) (zip quasisA quasisB))
               then Inr (Invalid, c)
               else cmp c (Val nodeA) (Val nodeB)
           | _ \<Rightarrow> Inl TypeError)
      | TSTemplateLiteralType hA quasisA typesA \<Rightarrow>
          (case nodeB of
             TSTemplateLiteralType hB quasisB typesB \<Rightarrow>
               if \<not> (length quasisA = length quasisB
                      \<and> list_all (\<lambda>(elA, elB). elA = elB) (zip quasisA quasisB))
               then Inr (Invalid, c)
               else cmp c (Val nodeA) (Val nodeB)
           | _ \<Rightarrow> Inl TypeError)
      | TemplateElement hA cookedA \<Rightarrow>
          (case nodeB of
             TemplateElement hB cookedB \<Rightarrow>
               if cookedA = cookedB then Inr (Equal, c) else Inr (Invalid, c)
           | _ \<Rightarrow> Inl TypeError)
      | _ \<Rightarrow> compareByVisiting visitorKeys cmp c nodeA nodeB)"

definition compareNodesUncached :: "visitor_keys \<Rightarrow> 's comparer \<Rightarrow> 's \<Rightarrow> node \<Rightarrow> node \<Rightarrow> (NodeComparisonResult, 's) res" where
  "compareNodesUncached visitorKeys cmp c nodeA nodeB =
     (if ntype nodeA \<noteq> ntype nodeB then compareDifferentTypes cmp c nodeA nodeB
      else compareSameType visitorKeys cmp c nodeA nodeB)"

definition cache_set :: "cache \<Rightarrow> node \<Rightarrow> node \<Rightarrow> NodeComparisonResult \<Rightarrow> cache" where
  "cache_set c nodeA nodeB result = c(nodeA := (c nodeA)(nodeB \<mapsto> result))"

text \<open>
  \<open>compareNodes\<close>, with the call stack it may use: each nested call of \<open>compareNodes\<close> takes
  one unit of \<open>depth\<close>, and a call with none left throws \<open>RangeError\<close>. The recursive calls
  of \<open>compareNodesUncached\<close> and its helpers go through the parameter \<open>cmp\<close>.
\<close>

primrec compareNodes :: "nat \<Rightarrow> visitor_keys \<Rightarrow> cache comparer" where
  "compareNodes 0 visitorKeys c nodeA nodeB = Inl RangeError"
| "compareNodes (Suc depth) visitorKeys c nodeA nodeB =
     (case (nodeA, nodeB) of
        (Val a, Val b) \<Rightarrow>
          (case c a b of
             Some cached \<Rightarrow> Inr (cached, c)
           | None \<Rightarrow>
               bind_res (compareNodesUncached visitorKeys (compareNodes depth visitorKeys) c a b)
                 (\<lambda>result c'. Inr (result, cache_set c' a b result)))
      | _ \<Rightarrow> if nodeA \<noteq> nodeB then Inr (Invalid, c) else Inr (Equal, c))"

section \<open>The chain analyzer\<close>

datatype NullishComparisonType =
    NotEqualNullOrUndefined | EqualNullOrUndefined
  | NotStrictEqualNull | StrictEqualNull
  | NotStrictEqualUndefined | StrictEqualUndefined
  | NotBoolean | Boolean

record ValidOperand =
  comparedName :: node
  comparisonType :: NullishComparisonType
  node :: node

datatype Operand = Valid ValidOperand | InvalidOperand

text \<open>What an \<open>OperandAnalyzer\<close> returns when it is not \<open>null\<close>: \<open>[operand]\<close> or
  \<open>[operand, nextOperand]\<close>.\<close>

datatype validated = Single ValidOperand | Both ValidOperand ValidOperand

fun validated_list :: "validated \<Rightarrow> ValidOperand list" where
  "validated_list (Single a) = [a]"
| "validated_list (Both a b) = [a, b]"

type_synonym OperandAnalyzer =
  "cache comparer \<Rightarrow> cache \<Rightarrow> ValidOperand \<Rightarrow> nat \<Rightarrow> ValidOperand list
     \<Rightarrow> (validated option, cache) res"

text \<open>\<open>chain[index]\<close>, \<open>undefined\<close> past the end.\<close>

definition nth_opt :: "'a list \<Rightarrow> nat \<Rightarrow> 'a option" where
  "nth_opt xs i = (if i < length xs then Some (xs ! i) else None)"

text \<open>
  The test shared by the four strict cases of the two analyzers:
  \<open>nextOperand?.comparisonType === wanted && compareNodes(operand.comparedName,
  nextOperand.comparedName) === Equal\<close>, giving the pair when it holds and \<open>alone\<close> when not.
\<close>

definition pairWithNext ::
  "cache comparer \<Rightarrow> cache \<Rightarrow> ValidOperand \<Rightarrow> ValidOperand option \<Rightarrow> NullishComparisonType
     \<Rightarrow> validated option \<Rightarrow> (validated option, cache) res" where
  "pairWithNext cmp c operand nextOperand wanted alone =
     (case nextOperand of
        None \<Rightarrow> Inr (alone, c)
      | Some nxt \<Rightarrow>
          if comparisonType nxt = wanted then
            bind_res (cmp c (Val (comparedName operand)) (Val (comparedName nxt)))
              (\<lambda>r c'. if r = Equal then Inr (Some (Both operand nxt), c') else Inr (alone, c'))
          else Inr (alone, c))"

definition analyzeAndChainOperand :: OperandAnalyzer where
  "analyzeAndChainOperand cmp c operand index chain =
     (case comparisonType operand of
        Boolean \<Rightarrow> Inr (Some (Single operand), c)
      | NotEqualNullOrUndefined \<Rightarrow> Inr (Some (Single operand), c)
      | NotStrictEqualNull \<Rightarrow>
          pairWithNext cmp c operand (nth_opt chain (index + 1)) NotStrictEqualUndefined
            (Some (Single operand))
      | NotStrictEqualUndefined \<Rightarrow>
          pairWithNext cmp c operand (nth_opt chain (index + 1)) NotStrictEqualNull
            (Some (Single operand))
      | _ \<Rightarrow> Inr (None, c))"

definition analyzeOrChainOperand :: OperandAnalyzer where
  "analyzeOrChainOperand cmp c operand index chain =
     (case comparisonType operand of
        NotBoolean \<Rightarrow> Inr (Some (Single operand), c)
      | EqualNullOrUndefined \<Rightarrow> Inr (Some (Single operand), c)
      | StrictEqualNull \<Rightarrow>
          pairWithNext cmp c operand (nth_opt chain (index + 1)) StrictEqualUndefined None
      | StrictEqualUndefined \<Rightarrow>
          pairWithNext cmp c operand (nth_opt chain (index + 1)) StrictEqualNull None
      | _ \<Rightarrow> Inr (None, c))"

text \<open>A call of \<open>context.report\<close>: the chain diagnostic with its \<open>loc\<close>, or the suggestion of
  the empty-object visitor with the reported node, the range to replace and the new text.\<close>

datatype Report =
    PreferOptionalChain position position
  | OptionalChainSuggest node "nat \<times> nat" string

record chain_state =
  subChain :: "ValidOperand list"
  reports :: "Report list"

text \<open>\<open>newChainSeed\<close> is \<open>[]\<close> when the source passes none.\<close>

definition maybeReportThenReset :: "chain_state \<Rightarrow> ValidOperand list \<Rightarrow> chain_state" where
  "maybeReportThenReset st newChainSeed =
     \<lparr>subChain = newChainSeed,
      reports =
        (if length (subChain st) > 1 then
           reports st @
             [PreferOptionalChain (loc_start (header (node (hd (subChain st)))))
                (loc_end (header (node (last (subChain st)))))]
         else reports st)\<rparr>"

text \<open>The \<open>for\<close> loop of \<open>analyzeChain\<close>, from index \<open>i\<close>, and the last
  \<open>maybeReportThenReset()\<close> after it.\<close>

function analyzeLoop ::
  "OperandAnalyzer \<Rightarrow> cache comparer \<Rightarrow> ValidOperand list \<Rightarrow> nat \<Rightarrow> chain_state \<Rightarrow> cache
     \<Rightarrow> (chain_state, cache) res" where
  "analyzeLoop analyzeOperand cmp chain i st c =
     (if i < length chain then
        bind_res (analyzeOperand cmp c (chain ! i) i chain) (\<lambda>validatedOperands c1.
          case validatedOperands of
            None \<Rightarrow> analyzeLoop analyzeOperand cmp chain (i + 1) (maybeReportThenReset st []) c1
          | Some v \<Rightarrow>
              (let i' = i + (length (validated_list v) - 1);
                   currentOperand = last (validated_list v)
               in if subChain st \<noteq> [] then
                    bind_res (cmp c1 (Val (comparedName (last (subChain st))))
                                (Val (comparedName currentOperand)))
                      (\<lambda>comparisonResult c2.
                         if comparisonResult = Subset then
                           analyzeLoop analyzeOperand cmp chain (i' + 1)
                             (st\<lparr>subChain := subChain st @ [currentOperand]\<rparr>) c2
                         else if comparisonResult = Invalid then
                           analyzeLoop analyzeOperand cmp chain (i' + 1)
                             (maybeReportThenReset st (validated_list v)) c2
                         else analyzeLoop analyzeOperand cmp chain (i' + 1) st c2)
                  else analyzeLoop analyzeOperand cmp chain (i' + 1)
                         (st\<lparr>subChain := subChain st @ [currentOperand]\<rparr>) c1))
      else Inr (maybeReportThenReset st [], c))"
  by pat_completeness auto
termination
  by (relation "measure (\<lambda>(a, cmp, chain, i, st, c). length chain - i)") auto

text \<open>\<open>analyzeChain\<close> gives the reports it made, in order.\<close>

definition analyzeChain ::
  "cache comparer \<Rightarrow> cache \<Rightarrow> string \<Rightarrow> ValidOperand list \<Rightarrow> (Report list, cache) res" where
  "analyzeChain cmp c operator chain =
     (if length chain \<le> 1 then Inr ([], c)
      else if operator = ''&&'' then
        bind_res (analyzeLoop analyzeAndChainOperand cmp chain 0 \<lparr>subChain = [], reports = []\<rparr> c)
          (\<lambda>st c'. Inr (reports st, c'))
      else if operator = ''||'' then
        bind_res (analyzeLoop analyzeOrChainOperand cmp chain 0 \<lparr>subChain = [], reports = []\<rparr> c)
          (\<lambda>st c'. Inr (reports st, c'))
      else Inr ([], c))"

section \<open>The operand classifier\<close>

datatype ComparisonValueType = CVNull | CVUndefined | CVUndefinedStringLiteral

text \<open>The bits of \<open>ts.TypeFlags\<close> that the rule reads, and the part of a type the rule sees:
  its flags and, for an intrinsic type, its name.\<close>

datatype TypeFlags =
    TFAny | TFUnknown | TFString | TFNumber | TFBoolean | TFEnum | TFBigInt
  | TFStringLiteral | TFNumberLiteral | TFBooleanLiteral | TFBigIntLiteral
  | TFUndefined | TFNull | TFObject | TFTemplateLiteral | TFStringMapping | TFOtherFlag nat

record ts_type =
  flags :: "TypeFlags set"
  intrinsicName :: string

record TypeAwareOptions =
  checkAny :: bool
  checkUnknown :: bool
  checkString :: bool
  checkNumber :: bool
  checkBoolean :: bool
  checkBigInt :: bool
  requireNullish :: bool

text \<open>
  What the rule asks of its surroundings, as parameters:
  \<open>typeParts n\<close> is \<open>unionTypeParts(parserServices.getTypeAtLocation(n))\<close>,
  \<open>getText\<close> is \<open>sourceCode.getText\<close>, \<open>tsKind n\<close> is the kind of
  \<open>esTreeNodeToTSNodeMap.get(n)\<close>, \<open>tsOperator n\<close> is the kind of its operator token when
  \<open>ts.isBinaryExpression\<close> holds of it and \<open>SyntaxKind.Unknown\<close> when not,
  \<open>getOperatorPrecedence\<close> and \<open>LeftHandSide\<close> are those of \<open>util\<close>.
\<close>

record services =
  typeParts :: "node \<Rightarrow> ts_type list"
  getText :: "node \<Rightarrow> string"
  tsKind :: "node \<Rightarrow> nat"
  tsOperator :: "node \<Rightarrow> nat"
  getOperatorPrecedence :: "nat \<Rightarrow> nat \<Rightarrow> int"
  LeftHandSide :: int

text \<open>Modelled from the spec: \<open>util.isTypeFlagSet\<close> is not among the sources; a constituent
  "is one of" the listed categories when it carries one of their flags.\<close>

definition isTypeFlagSet :: "ts_type \<Rightarrow> TypeFlags set \<Rightarrow> bool" where
  "isTypeFlagSet t flagsToCheck = (flags t \<inter> flagsToCheck \<noteq> {})"

definition isBooleanLiteralType :: "ts_type \<Rightarrow> bool" where
  "isBooleanLiteralType t = (TFBooleanLiteral \<in> flags t)"

definition isValidFalseBooleanCheckType ::
  "node \<Rightarrow> string \<Rightarrow> string \<Rightarrow> services \<Rightarrow> TypeAwareOptions \<Rightarrow> bool" where
  "isValidFalseBooleanCheckType n operator checkType parserServices options =
     (let types = typeParts parserServices n;
          disallowFalseLiteral =
            ((operator = ''||'' \<and> checkType = ''false'') \<or> (operator = ''&&'' \<and> checkType = ''true''));
          nullishFlags = {TFNull, TFUndefined}
      in if disallowFalseLiteral
            \<and> list_ex (\<lambda>t. isBooleanLiteralType t \<and> intrinsicName t = ''false'') types
         then False
         else if requireNullish options then list_ex (\<lambda>t. isTypeFlagSet t nullishFlags) types
         else list_all (\<lambda>t. isTypeFlagSet t
                (nullishFlags \<union> {TFObject}
                 \<union> (if checkAny options then {TFAny} else {})
                 \<union> (if checkUnknown options then {TFUnknown} else {})
                 \<union> (if checkString options
                     then {TFString, TFStringLiteral, TFTemplateLiteral, TFStringMapping} else {})
                 \<union> (if checkNumber options then {TFNumber, TFNumberLiteral, TFEnum} else {})
                 \<union> (if checkBoolean options then {TFBoolean, TFBooleanLiteral} else {})
                 \<union> (if checkBigInt options then {TFBigInt, TFBigIntLiteral} else {}))) types)"

text \<open>The \<open>while\<close> loop of \<open>flattenLogicalOperands\<close>; the head of the list is the top of the
  stack.\<close>

function (sequential) flattenLoop ::
  "string \<Rightarrow> node list \<Rightarrow> node list \<Rightarrow> node set \<Rightarrow> node list \<times> node set" where
  "flattenLoop operator [] operands seenLogicals = (operands, seenLogicals)"
| "flattenLoop operator (LogicalExpression h opr l r # stack) operands seenLogicals =
     (if opr = operator then
        flattenLoop operator (l # r # stack) operands
          (insert (LogicalExpression h opr l r) seenLogicals)
      else flattenLoop operator stack (operands @ [LogicalExpression h opr l r]) seenLogicals)"
| "flattenLoop operator (current # stack) operands seenLogicals =
     flattenLoop operator stack (operands @ [current]) seenLogicals"
  by pat_completeness auto
termination
  by (relation "measure (\<lambda>(operator, stack, operands, seenLogicals).
                  sum_list (map (\<lambda>n. Suc (2 * size n)) stack))") auto

definition flattenLogicalOperands :: "node \<Rightarrow> node list \<times> node set" where
  "flattenLogicalOperands n =
     (case n of
        LogicalExpression h opr l r \<Rightarrow> flattenLoop opr [l, r] [] {n}
      | _ \<Rightarrow> ([], {n}))"

definition getComparisonValueType :: "node \<Rightarrow> ComparisonValueType option" where
  "getComparisonValueType n =
     (case n of
        Literal h raw v \<Rightarrow>
          if v = LNull \<and> raw = ''null'' then Some CVNull
          else if v = LString ''undefined'' then Some CVUndefinedStringLiteral
          else None
      | Identifier h name \<Rightarrow> if name = ''undefined'' then Some CVUndefined else None
      | _ \<Rightarrow> None)"

definition startsWithBang :: "string \<Rightarrow> bool" where
  "startsWithBang opr = (case opr of [] \<Rightarrow> False | ch # rest \<Rightarrow> ch = CHR ''!'')"

text \<open>The body of the \<open>for\<close> loop of \<open>gatherLogicalOperands\<close>: the operand pushed for one
  leaf; \<open>operator\<close> is \<open>node.operator\<close> of the logical expression being flattened.\<close>

definition classifyOperand :: "string \<Rightarrow> services \<Rightarrow> TypeAwareOptions \<Rightarrow> node \<Rightarrow> Operand" where
  "classifyOperand operator parserServices options operand =
     (case operand of
        BinaryExpression h opr l r \<Rightarrow>
          (let (comparedExpression, comparedValue) =
                 (case getComparisonValueType r of
                    Some comparedValueRight \<Rightarrow> (l, Some comparedValueRight)
                  | None \<Rightarrow> (r, getComparisonValueType l))
           in if comparedValue = Some CVUndefinedStringLiteral then
                (case comparedExpression of
                   UnaryExpression h' opr' argument \<Rightarrow>
                     if opr' = ''typeof'' then
                       Valid \<lparr>comparedName = argument,
                              comparisonType = (if startsWithBang opr then NotStrictEqualUndefined
                                                else StrictEqualUndefined),
                              node = operand\<rparr>
                     else InvalidOperand
                 | _ \<Rightarrow> InvalidOperand)
              else if opr = ''!='' \<or> opr = ''=='' then
                (if comparedValue = Some CVNull \<or> comparedValue = Some CVUndefined then
                   Valid \<lparr>comparedName = comparedExpression,
                          comparisonType = (if startsWithBang opr then NotEqualNullOrUndefined
                                            else EqualNullOrUndefined),
                          node = operand\<rparr>
                 else InvalidOperand)
              else if opr = ''!=='' \<or> opr = ''==='' then
                (case comparedValue of
                   Some CVNull \<Rightarrow>
                     Valid \<lparr>comparedName = comparedExpression,
                            comparisonType = (if startsWithBang opr then NotStrictEqualNull
                                              else StrictEqualNull),
                            node = operand\<rparr>
                 | Some CVUndefined \<Rightarrow>
                     Valid \<lparr>comparedName = comparedExpression,
                            comparisonType = (if startsWithBang opr then NotStrictEqualUndefined
                                              else StrictEqualUndefined),
                            node = operand\<rparr>
                 | _ \<Rightarrow> InvalidOperand)
              else InvalidOperand)
      | UnaryExpression h opr argument \<Rightarrow>
          if opr = ''!'' \<and> isValidFalseBooleanCheckType argument operator ''false'' parserServices options
          then Valid \<lparr>comparedName = argument, comparisonType = NotBoolean, node = operand\<rparr>
          else InvalidOperand
      | LogicalExpression h opr l r \<Rightarrow> InvalidOperand
      | _ \<Rightarrow>
          if isValidFalseBooleanCheckType operand operator ''true'' parserServices options
          then Valid \<lparr>comparedName = operand, comparisonType = Boolean, node = operand\<rparr>
          else InvalidOperand)"

definition operatorOf :: "node \<Rightarrow> string" where
  "operatorOf n = (case n of LogicalExpression h opr l r \<Rightarrow> opr | _ \<Rightarrow> [])"

definition gatherLogicalOperands ::
  "node \<Rightarrow> services \<Rightarrow> TypeAwareOptions \<Rightarrow> Operand list \<times> node set" where
  "gatherLogicalOperands n parserServices options =
     (let (operands, seenLogicals) = flattenLogicalOperands n
      in (map (classifyOperand (operatorOf n) parserServices options) operands, seenLogicals))"

section \<open>The visitors of the rule\<close>

text \<open>What \<open>create\<close> closes over: the set \<open>seenLogicals\<close>, the reports made so far, and the
  comparator's cache.\<close>

record rule_state =
  seenLogicals :: "node set"
  reported :: "Report list"
  compareCache :: cache

definition isLeftSideLowerPrecedence :: "services \<Rightarrow> node \<Rightarrow> node \<Rightarrow> bool" where
  "isLeftSideLowerPrecedence parserServices n leftNode =
     (getOperatorPrecedence parserServices (tsKind parserServices leftNode)
        (tsOperator parserServices n) < LeftHandSide parserServices)"

text \<open>The text that the suggested fix puts in place of the member expression.\<close>

definition optionalChainText :: "services \<Rightarrow> node \<Rightarrow> node \<Rightarrow> node \<Rightarrow> bool \<Rightarrow> string" where
  "optionalChainText sourceCode n leftNode property computed =
     (let leftNodeText = getText sourceCode leftNode;
          maybeWrappedLeftNode =
            (if isLeftSideLowerPrecedence sourceCode n leftNode then ''('' @ leftNodeText @ '')''
             else leftNodeText);
          propertyToBeOptionalText = getText sourceCode property;
          maybeWrappedProperty =
            (if computed then ''['' @ propertyToBeOptionalText @ '']''
             else propertyToBeOptionalText)
      in maybeWrappedLeftNode @ ''?.'' @ maybeWrappedProperty)"

text \<open>
  The visitor for \<open>LogicalExpression[operator="||"], LogicalExpression[operator="??"]\<close>;
  \<open>parentNode\<close> is \<open>node.parent\<close>.
\<close>

definition emptyObjectVisitor :: "services \<Rightarrow> node \<Rightarrow> node nullable \<Rightarrow> rule_state \<Rightarrow> rule_state" where
  "emptyObjectVisitor parserServices n parentNode st =
     (case n of
        LogicalExpression h opr leftNode rightNode \<Rightarrow>
          if opr = ''||'' \<or> opr = ''??'' then
            (let isRightNodeAnEmptyObjectLiteral =
                   (ntype rightNode = TKind ObjectExpression
                    \<and> get_field rightNode ''properties'' = Many [])
             in case parentNode of
                  Val (MemberExpression hp ob property computed optional) \<Rightarrow>
                    if \<not> isRightNodeAnEmptyObjectLiteral \<or> optional then st
                    else st\<lparr>seenLogicals := insert n (seenLogicals st),
                            reported := reported st @
                              [OptionalChainSuggest (MemberExpression hp ob property computed optional)
                                 (range_of hp)
                                 (optionalChainText parserServices n leftNode property computed)]\<rparr>
                | _ \<Rightarrow> st)
          else st
      | _ \<Rightarrow> st)"

text \<open>The loop of the second visitor over the classified operands: every run of valid
  operands between invalid ones goes to \<open>analyzeChain\<close>.\<close>

fun analyzeRuns ::
  "cache comparer \<Rightarrow> string \<Rightarrow> Operand list \<Rightarrow> ValidOperand list \<Rightarrow> Report list \<Rightarrow> cache
     \<Rightarrow> (Report list, cache) res" where
  "analyzeRuns cmp operator [] currentChain made c =
     bind_res (analyzeChain cmp c operator currentChain) (\<lambda>rs c'. Inr (made @ rs, c'))"
| "analyzeRuns cmp operator (InvalidOperand # rest) currentChain made c =
     bind_res (analyzeChain cmp c operator currentChain)
       (\<lambda>rs c'. analyzeRuns cmp operator rest [] (made @ rs) c')"
| "analyzeRuns cmp operator (Valid operand # rest) currentChain made c =
     analyzeRuns cmp operator rest (currentChain @ [operand]) made c"

text \<open>The visitor for \<open>LogicalExpression[operator!="??"]\<close>; \<open>cmp\<close> is \<open>compareNodes\<close> with
  the stack left at this point.\<close>

definition chainVisitor ::
  "cache comparer \<Rightarrow> services \<Rightarrow> TypeAwareOptions \<Rightarrow> node \<Rightarrow> rule_state \<Rightarrow> failure + rule_state" where
  "chainVisitor cmp parserServices options n st =
     (if operatorOf n = ''??'' \<or> ntype n \<noteq> TLogicalExpression then Inr st
      else if n \<in> seenLogicals st then Inr st
      else
        (let (operands, newSeenLogicals) = gatherLogicalOperands n parserServices options
         in case analyzeRuns cmp (operatorOf n) operands [] [] (compareCache st) of
              Inl e \<Rightarrow> Inl e
            | Inr (rs, c') \<Rightarrow>
                Inr \<lparr>seenLogicals = seenLogicals st \<union> newSeenLogicals,
                     reported = reported st @ rs,
                     compareCache = c'\<rparr>))"

section \<open>The comparator without its cache\<close>

text \<open>
  What the claims about memoization compare \<open>compareNodes\<close> with: the same recursion through
  \<open>compareNodesUncached\<close>, with no cache read or written.
\<close>

primrec compareNodesNoCache :: "nat \<Rightarrow> visitor_keys \<Rightarrow> unit comparer" where
  "compareNodesNoCache 0 visitorKeys u nodeA nodeB = Inl RangeError"
| "compareNodesNoCache (Suc depth) visitorKeys u nodeA nodeB =
     (case (nodeA, nodeB) of
        (Val a, Val b) \<Rightarrow>
          compareNodesUncached visitorKeys (compareNodesNoCache depth visitorKeys) u a b
      | _ \<Rightarrow> if nodeA \<noteq> nodeB then Inr (Invalid, u) else Inr (Equal, u))"

text \<open>A cache holds only results that the comparison without cache gives, on a stack deep
  enough.\<close>

definition cache_sound :: "visitor_keys \<Rightarrow> cache \<Rightarrow> bool" where
  "cache_sound visitorKeys c =
     (\<forall>a b r. c a b = Some r \<longrightarrow>
        (\<exists>d. compareNodesNoCache d visitorKeys () (Val a) (Val b) = Inr (r, ())))"

definition emptyCache :: cache where
  "emptyCache = (\<lambda>a b. None)"

text \<open>The result of a call, without the state.\<close>

definition outcome :: "('a, 's) res \<Rightarrow> failure + 'a" where
  "outcome m = map_sum id fst m"

section \<open>Example trees\<close>

text \<open>A node on line 1 with the given address and columns.\<close>

definition hdr_at :: "nat \<Rightarrow> nat \<Rightarrow> nat \<Rightarrow> hdr" where
  "hdr_at i s e = \<lparr>nid = i, parent = ParentOther, loc_start = (1, s), loc_end = (1, e), range_of = (s, e)\<rparr>"

text \<open>An instance of the table of visitor keys, with the package's entries for the kinds
  used below.\<close>

definition exampleVisitorKeys :: visitor_keys where
  "exampleVisitorKeys t =
     (if t = TTSNonNullExpression then Some [''expression'']
      else if t = TBinaryExpression then Some [''left'', ''right'']
      else if t = TUnaryExpression then Some [''argument'']
      else if t = TLogicalExpression then Some [''left'', ''right'']
      else if t = TKind MetaProperty then Some [''meta'', ''property'']
      else if t = TKind (OtherKind ''ConditionalExpression'')
        then Some [''test'', ''consequent'', ''alternate'']
      else if t = TKind (OtherKind ''ThisExpression'') then Some []
      else None)"

definition defaultOptions :: TypeAwareOptions where
  "defaultOptions = \<lparr>checkAny = True, checkUnknown = True, checkString = True, checkNumber = True,
                      checkBoolean = True, checkBigInt = True, requireNullish = False\<rparr>"

text \<open>
  An instance of the services for a source text: every expression has the type
  \<open>object | undefined\<close>, the text of a node is the slice of the source at its range, and
  the precedences are TypeScript's (conditional 4, logical or 5, left-hand side 18,
  member 19, primary 20).
\<close>

definition exampleServices :: "string \<Rightarrow> services" where
  "exampleServices source =
     \<lparr>typeParts = (\<lambda>n. [\<lparr>flags = {TFObject}, intrinsicName = []\<rparr>,
                          \<lparr>flags = {TFUndefined}, intrinsicName = ''undefined''\<rparr>]),
      getText = (\<lambda>n. take (snd (range_of (header n)) - fst (range_of (header n)))
                        (drop (fst (range_of (header n))) source)),
      tsKind = (\<lambda>n. case ntype n of
                  TKind (OtherKind k) \<Rightarrow> if k = ''ConditionalExpression'' then 227 else 0
                | TIdentifier \<Rightarrow> 80 | TCallExpression \<Rightarrow> 213 | TMemberExpression \<Rightarrow> 211
                | _ \<Rightarrow> 0),
      tsOperator = (\<lambda>n. if operatorOf n = ''||'' then 57 else if operatorOf n = ''??'' then 61 else 0),
      getOperatorPrecedence = (\<lambda>k opr. if k = 227 then 4 else if k = 80 then 20
                                 else if k = 213 \<or> k = 211 then 19 else -1),
      LeftHandSide = 18\<rparr>"

text \<open>\<open>x !== null && x !== undefined && x.y\<close>\<close>

definition ex1_x1 :: node where "ex1_x1 = Identifier (hdr_at 1 0 1) ''x''"
definition ex1_null :: node where "ex1_null = Literal (hdr_at 2 6 10) ''null'' LNull"
definition ex1_notNull :: node where
  "ex1_notNull = BinaryExpression (hdr_at 3 0 10) ''!=='' ex1_x1 ex1_null"
definition ex1_x2 :: node where "ex1_x2 = Identifier (hdr_at 4 14 15) ''x''"
definition ex1_undefined :: node where "ex1_undefined = Identifier (hdr_at 5 20 29) ''undefined''"
definition ex1_notUndefined :: node where
  "ex1_notUndefined = BinaryExpression (hdr_at 6 14 29) ''!=='' ex1_x2 ex1_undefined"
definition ex1_x3 :: node where "ex1_x3 = Identifier (hdr_at 7 33 34) ''x''"
definition ex1_y :: node where "ex1_y = Identifier (hdr_at 8 35 36) ''y''"
definition ex1_xy :: node where
  "ex1_xy = MemberExpression (hdr_at 9 33 36) ex1_x3 ex1_y False False"
definition ex1_inner :: node where
  "ex1_inner = LogicalExpression (hdr_at 10 0 29) ''&&'' ex1_notNull ex1_notUndefined"
definition ex1_root :: node where
  "ex1_root = LogicalExpression (hdr_at 11 0 36) ''&&'' ex1_inner ex1_xy"

definition ex1_operands :: "ValidOperand list" where
  "ex1_operands =
     [\<lparr>comparedName = ex1_x1, comparisonType = NotStrictEqualNull, node = ex1_notNull\<rparr>,
      \<lparr>comparedName = ex1_x2, comparisonType = NotStrictEqualUndefined, node = ex1_notUndefined\<rparr>,
      \<lparr>comparedName = ex1_xy, comparisonType = Boolean, node = ex1_xy\<rparr>]"

text \<open>\<open>x === null || x === undefined\<close>\<close>

definition ex2_x1 :: node where "ex2_x1 = Identifier (hdr_at 21 0 1) ''x''"
definition ex2_null :: node where "ex2_null = Literal (hdr_at 22 6 10) ''null'' LNull"
definition ex2_isNull :: node where
  "ex2_isNull = BinaryExpression (hdr_at 23 0 10) ''==='' ex2_x1 ex2_null"
definition ex2_x2 :: node where "ex2_x2 = Identifier (hdr_at 24 14 15) ''x''"
definition ex2_undefined :: node where "ex2_undefined = Identifier (hdr_at 25 20 29) ''undefined''"
definition ex2_isUndefined :: node where
  "ex2_isUndefined = BinaryExpression (hdr_at 26 14 29) ''==='' ex2_x2 ex2_undefined"
definition ex2_root :: node where
  "ex2_root = LogicalExpression (hdr_at 27 0 29) ''||'' ex2_isNull ex2_isUndefined"

definition ex2_operands :: "ValidOperand list" where
  "ex2_operands =
     [\<lparr>comparedName = ex2_x1, comparisonType = StrictEqualNull, node = ex2_isNull\<rparr>,
      \<lparr>comparedName = ex2_x2, comparisonType = StrictEqualUndefined, node = ex2_isUndefined\<rparr>]"

text \<open>\<open>x !== null && x.y\<close>\<close>

definition ex3_x1 :: node where "ex3_x1 = Identifier (hdr_at 31 0 1) ''x''"
definition ex3_null :: node where "ex3_null = Literal (hdr_at 32 6 10) ''null'' LNull"
definition ex3_notNull :: node where
  "ex3_notNull = BinaryExpression (hdr_at 33 0 10) ''!=='' ex3_x1 ex3_null"
definition ex3_x2 :: node where "ex3_x2 = Identifier (hdr_at 34 14 15) ''x''"
definition ex3_y :: node where "ex3_y = Identifier (hdr_at 35 16 17) ''y''"
definition ex3_xy :: node where
  "ex3_xy = MemberExpression (hdr_at 36 14 17) ex3_x2 ex3_y False False"
definition ex3_root :: node where
  "ex3_root = LogicalExpression (hdr_at 37 0 17) ''&&'' ex3_notNull ex3_xy"

definition ex3_operands :: "ValidOperand list" where
  "ex3_operands =
     [\<lparr>comparedName = ex3_x1, comparisonType = NotStrictEqualNull, node = ex3_notNull\<rparr>,
      \<lparr>comparedName = ex3_xy, comparisonType = Boolean, node = ex3_xy\<rparr>]"

text \<open>\<open>(foo || {}).bar\<close>\<close>

definition ex4_source :: string where "ex4_source = ''(foo || {}).bar''"
definition ex4_foo :: node where "ex4_foo = Identifier (hdr_at 41 1 4) ''foo''"
definition ex4_object :: node where
  "ex4_object = GenericNode (hdr_at 42 8 10) ObjectExpression [(''properties'', Many [])]"
definition ex4_logical :: node where
  "ex4_logical =
     LogicalExpression ((hdr_at 43 1 10)\<lparr>parent := ParentMemberObject\<rparr>) ''||'' ex4_foo ex4_object"
definition ex4_bar :: node where "ex4_bar = Identifier (hdr_at 44 12 15) ''bar''"
definition ex4_member :: node where
  "ex4_member = MemberExpression (hdr_at 45 0 15) ex4_logical ex4_bar False False"

text \<open>\<open>((a ? b : c) || {}).bar\<close>\<close>

definition ex5_source :: string where "ex5_source = ''((a ? b : c) || {}).bar''"
definition ex5_conditional :: node where
  "ex5_conditional =
     GenericNode (hdr_at 51 2 11) (OtherKind ''ConditionalExpression'')
       [(''test'', One (Val (Identifier (hdr_at 52 2 3) ''a''))),
        (''consequent'', One (Val (Identifier (hdr_at 53 6 7) ''b''))),
        (''alternate'', One (Val (Identifier (hdr_at 54 10 11) ''c'')))]"
definition ex5_object :: node where
  "ex5_object = GenericNode (hdr_at 55 16 18) ObjectExpression [(''properties'', Many [])]"
definition ex5_logical :: node where
  "ex5_logical =
     LogicalExpression ((hdr_at 56 1 18)\<lparr>parent := ParentMemberObject\<rparr>) ''||''
       ex5_conditional ex5_object"
definition ex5_bar :: node where "ex5_bar = Identifier (hdr_at 57 20 23) ''bar''"
definition ex5_member :: node where
  "ex5_member = MemberExpression (hdr_at 58 0 23) ex5_logical ex5_bar False False"

text \<open>Two template literals with the same text, at columns 0 and 7 of one line.\<close>

definition ex6_templateA :: node where
  "ex6_templateA = TemplateLiteral (hdr_at 61 0 3) [TemplateElement (hdr_at 62 1 2) (Some ''a'')] []"
definition ex6_templateB :: node where
  "ex6_templateB = TemplateLiteral (hdr_at 63 7 10) [TemplateElement (hdr_at 64 8 9) (Some ''a'')] []"

text \<open>\<open>a[x] && a[x.y]\<close>\<close>

definition ex7_ax :: node where
  "ex7_ax = MemberExpression (hdr_at 73 0 4)
              (Identifier ((hdr_at 71 0 1)\<lparr>parent := ParentMemberObject\<rparr>) ''a'')
              (Identifier (hdr_at 72 2 3) ''x'') True False"
definition ex7_a2 :: node where
  "ex7_a2 = Identifier ((hdr_at 74 8 9)\<lparr>parent := ParentMemberObject\<rparr>) ''a''"
definition ex7_axy :: node where
  "ex7_axy = MemberExpression (hdr_at 78 8 14) ex7_a2
               (MemberExpression (hdr_at 77 10 13)
                  (Identifier ((hdr_at 75 10 11)\<lparr>parent := ParentMemberObject\<rparr>) ''x'')
                  (Identifier (hdr_at 76 12 13) ''y'') False False)
               True False"

text \<open>
  The nodes that peeling gives: the node itself and, through the object of a member
  expression, the callee of a call and the expression under a \<open>ChainExpression\<close> or
  \<open>TSNonNullExpression\<close>, those of the node below.
\<close>

fun peels :: "node \<Rightarrow> node list" where
  "peels (MemberExpression h ob p cm opt) = MemberExpression h ob p cm opt # peels ob"
| "peels (CallExpression h cl as ta opt) = CallExpression h cl as ta opt # peels cl"
| "peels (ChainExpression h e) = ChainExpression h e # peels e"
| "peels (TSNonNullExpression h e) = TSNonNullExpression h e # peels e"
| "peels n = [n]"

text \<open>The comparison that makes a pair with a strict one: \<open>!== null\<close> with
  \<open>!== undefined\<close>, \<open>=== null\<close> with \<open>=== undefined\<close>.\<close>

fun counterpart :: "NullishComparisonType \<Rightarrow> NullishComparisonType" where
  "counterpart NotStrictEqualNull = NotStrictEqualUndefined"
| "counterpart NotStrictEqualUndefined = NotStrictEqualNull"
| "counterpart StrictEqualNull = StrictEqualUndefined"
| "counterpart StrictEqualUndefined = StrictEqualNull"
| "counterpart t = t"

text \<open>The operands of \<open>x === null || y === undefined\<close> and of
  \<open>x !== null && y !== undefined\<close>.\<close>

definition ex8_operands :: "ValidOperand list" where
  "ex8_operands =
     [\<lparr>comparedName = ex2_x1, comparisonType = StrictEqualNull, node = ex2_isNull\<rparr>,
      \<lparr>comparedName = ex1_y, comparisonType = StrictEqualUndefined, node = ex2_isUndefined\<rparr>]"

definition ex9_operands :: "ValidOperand list" where
  "ex9_operands =
     [\<lparr>comparedName = ex3_x1, comparisonType = NotStrictEqualNull, node = ex3_notNull\<rparr>,
      \<lparr>comparedName = ex1_y, comparisonType = NotStrictEqualUndefined, node = ex1_notUndefined\<rparr>]"

text \<open>The operands of \<open>y != null && x !== null && x !== undefined\<close>.\<close>

definition ex10_y :: node where "ex10_y = Identifier (hdr_at 101 0 1) ''y''"
definition ex10_yNotNull :: node where
  "ex10_yNotNull =
     BinaryExpression (hdr_at 103 0 9) ''!='' ex10_y (Literal (hdr_at 102 5 9) ''null'' LNull)"
definition ex10_x1 :: node where "ex10_x1 = Identifier (hdr_at 104 13 14) ''x''"
definition ex10_xNotNull :: node where
  "ex10_xNotNull =
     BinaryExpression (hdr_at 106 13 23) ''!=='' ex10_x1 (Literal (hdr_at 105 19 23) ''null'' LNull)"
definition ex10_x2 :: node where "ex10_x2 = Identifier (hdr_at 107 27 28) ''x''"
definition ex10_xNotUndefined :: node where
  "ex10_xNotUndefined =
     BinaryExpression (hdr_at 109 27 42) ''!=='' ex10_x2 (Identifier (hdr_at 108 33 42) ''undefined'')"

definition ex10_operands :: "ValidOperand list" where
  "ex10_operands =
     [\<lparr>comparedName = ex10_y, comparisonType = NotEqualNullOrUndefined, node = ex10_yNotNull\<rparr>,
      \<lparr>comparedName = ex10_x1, comparisonType = NotStrictEqualNull, node = ex10_xNotNull\<rparr>,
      \<lparr>comparedName = ex10_x2, comparisonType = NotStrictEqualUndefined,
       node = ex10_xNotUndefined\<rparr>]"

text \<open>The state of the rule when \<open>create\<close> returns.\<close>

definition initialState :: rule_state where
  "initialState = \<lparr>seenLogicals = {}, reported = [], compareCache = emptyCache\<rparr>"

text \<open>
  For the proofs about the cache: a run \<open>m\<close> with state \<open>'s\<close> is followed by the runs
  \<open>fam d\<close> with state \<open>'t\<close> when every result of \<open>m\<close> is the result of \<open>fam d\<close> for
  all \<open>d\<close> from some depth on, with final states related by \<open>R\<close>; and the same for
  comparers, from related states.
\<close>

definition ev_rel :: "('s \<Rightarrow> 't \<Rightarrow> bool) \<Rightarrow> ('a, 's) res \<Rightarrow> (nat \<Rightarrow> ('a, 't) res) \<Rightarrow> bool" where
  "ev_rel R m fam = (\<forall>r s'. m = Inr (r, s') \<longrightarrow> (\<exists>d t'. R s' t' \<and> (\<forall>d'\<ge>d. fam d' = Inr (r, t'))))"

definition cmp_rel :: "('s \<Rightarrow> 't \<Rightarrow> bool) \<Rightarrow> 's comparer \<Rightarrow> (nat \<Rightarrow> 't comparer) \<Rightarrow> bool" where
  "cmp_rel R cmp1 cmp2 = (\<forall>s t a b. R s t \<longrightarrow> ev_rel R (cmp1 s a b) (\<lambda>d. cmp2 d t a b))"

text \<open>
  Two trees are structurally identical when they have the same kinds, names, operators,
  flags, raw texts and values, and structurally identical children, position by position;
  their headers (address, parent, location) may differ. The value of a regular expression
  literal is an object, so two such literals have the same value only when they hold the
  same object.
\<close>

fun same_structure :: "node \<Rightarrow> node \<Rightarrow> bool"
  and same_slot :: "slot \<Rightarrow> slot \<Rightarrow> bool" where
  "same_structure (Identifier h s) b =
     (case b of Identifier h' s' \<Rightarrow> s = s' | _ \<Rightarrow> False)"
| "same_structure (PrivateIdentifier h s) b =
     (case b of PrivateIdentifier h' s' \<Rightarrow> s = s' | _ \<Rightarrow> False)"
| "same_structure (Literal h raw v) b =
     (case b of Literal h' raw' v' \<Rightarrow> raw = raw' \<and> v = v' | _ \<Rightarrow> False)"
| "same_structure (TemplateElement h ck) b =
     (case b of TemplateElement h' ck' \<Rightarrow> ck = ck' | _ \<Rightarrow> False)"
| "same_structure (MemberExpression h ob p cm opt) b =
     (case b of
        MemberExpression h' ob' p' cm' opt' \<Rightarrow>
          same_structure ob ob' \<and> same_structure p p' \<and> cm = cm' \<and> opt = opt'
      | _ \<Rightarrow> False)"
| "same_structure (CallExpression h cl as ta opt) b =
     (case b of
        CallExpression h' cl' as' ta' opt' \<Rightarrow>
          same_structure cl cl' \<and> list_all2 same_structure as as'
          \<and> (case ta of
                 Val t \<Rightarrow> (case ta' of Val t' \<Rightarrow> same_structure t t' | _ \<Rightarrow> False)
               | _ \<Rightarrow> ta' = ta)
          \<and> opt = opt'
      | _ \<Rightarrow> False)"
| "same_structure (ChainExpression h e) b =
     (case b of ChainExpression h' e' \<Rightarrow> same_structure e e' | _ \<Rightarrow> False)"
| "same_structure (TSNonNullExpression h e) b =
     (case b of TSNonNullExpression h' e' \<Rightarrow> same_structure e e' | _ \<Rightarrow> False)"
| "same_structure (TemplateLiteral h qs es) b =
     (case b of
        TemplateLiteral h' qs' es' \<Rightarrow>
          list_all2 same_structure qs qs' \<and> list_all2 same_structure es es'
      | _ \<Rightarrow> False)"
| "same_structure (TSTemplateLiteralType h qs ts) b =
     (case b of
        TSTemplateLiteralType h' qs' ts' \<Rightarrow>
          list_all2 same_structure qs qs' \<and> list_all2 same_structure ts ts'
      | _ \<Rightarrow> False)"
| "same_structure (BinaryExpression h opr l r) b =
     (case b of
        BinaryExpression h' opr' l' r' \<Rightarrow>
          opr = opr' \<and> same_structure l l' \<and> same_structure r r'
      | _ \<Rightarrow> False)"
| "same_structure (UnaryExpression h opr ar) b =
     (case b of UnaryExpression h' opr' ar' \<Rightarrow> opr = opr' \<and> same_structure ar ar' | _ \<Rightarrow> False)"
| "same_structure (LogicalExpression h opr l r) b =
     (case b of
        LogicalExpression h' opr' l' r' \<Rightarrow>
          opr = opr' \<and> same_structure l l' \<and> same_structure r r'
      | _ \<Rightarrow> False)"
| "same_structure (GenericNode h k fs) b =
     (case b of
        GenericNode h' k' fs' \<Rightarrow>
          k = k' \<and> list_all2 (\<lambda>f f'. fst f = fst f' \<and> same_slot (snd f) (snd f')) fs fs'
      | _ \<Rightarrow> False)"
| "same_slot (One v) s' =
     (case s' of
        One v' \<Rightarrow>
          (case v of
             Val n \<Rightarrow> (case v' of Val n' \<Rightarrow> same_structure n n' | _ \<Rightarrow> False)
           | _ \<Rightarrow> v' = v)
      | Many vs' \<Rightarrow> False)"
| "same_slot (Many vs) s' =
     (case s' of
        Many vs' \<Rightarrow>
          list_all2 (\<lambda>v v'. case v of
                               Val n \<Rightarrow> (case v' of Val n' \<Rightarrow> same_structure n n' | _ \<Rightarrow> False)
                             | _ \<Rightarrow> v' = v) vs vs'
      | One v' \<Rightarrow> False)"

text \<open>
  The class of nodes for which the comparator answers \<open>Equal\<close> on structurally identical
  trees: among the nodes that the comparison reaches there is no template literal, none of
  the kinds that never compare, no private identifier as the property of a member
  expression, no \<open>ChainExpression\<close> that is the object of a member expression or the callee
  of a call, and every kind that is compared by visiting has visitor keys.
\<close>

fun reflexive_node :: "visitor_keys \<Rightarrow> node \<Rightarrow> bool"
  and reflexive_slot :: "visitor_keys \<Rightarrow> slot \<Rightarrow> bool" where
  "reflexive_node vk (Identifier h s) = True"
| "reflexive_node vk (PrivateIdentifier h s) = True"
| "reflexive_node vk (Literal h raw v) = True"
| "reflexive_node vk (TemplateElement h ck) = True"
| "reflexive_node vk (MemberExpression h ob p cm opt) =
     (ntype p \<noteq> TPrivateIdentifier \<and> reflexive_node vk ob \<and> reflexive_node vk p)"
| "reflexive_node vk (CallExpression h cl as ta opt) =
     (reflexive_node vk cl \<and> list_all (reflexive_node vk) as
      \<and> (case ta of Val t \<Rightarrow> reflexive_node vk t | _ \<Rightarrow> True))"
| "reflexive_node vk (ChainExpression h e) =
     (parent h \<noteq> ParentMemberObject \<and> parent h \<noteq> ParentCallCallee \<and> reflexive_node vk e)"
| "reflexive_node vk (TSNonNullExpression h e) =
     (case vk TTSNonNullExpression of
        None \<Rightarrow> False
      | Some ks \<Rightarrow> ''expression'' \<in> set ks \<longrightarrow> reflexive_node vk e)"
| "reflexive_node vk (BinaryExpression h opr l r) =
     (case vk TBinaryExpression of
        None \<Rightarrow> False
      | Some ks \<Rightarrow> (''left'' \<in> set ks \<longrightarrow> reflexive_node vk l)
                   \<and> (''right'' \<in> set ks \<longrightarrow> reflexive_node vk r))"
| "reflexive_node vk (UnaryExpression h opr ar) =
     (case vk TUnaryExpression of
        None \<Rightarrow> False
      | Some ks \<Rightarrow> ''argument'' \<in> set ks \<longrightarrow> reflexive_node vk ar)"
| "reflexive_node vk (LogicalExpression h opr l r) =
     (case vk TLogicalExpression of
        None \<Rightarrow> False
      | Some ks \<Rightarrow> (''left'' \<in> set ks \<longrightarrow> reflexive_node vk l)
                   \<and> (''right'' \<in> set ks \<longrightarrow> reflexive_node vk r))"
| "reflexive_node vk (GenericNode h k fs) =
     (\<not> never_comparable k
      \<and> (case vk (TKind k) of
            None \<Rightarrow> False
          | Some ks \<Rightarrow> list_all (\<lambda>f. fst f \<in> set ks \<longrightarrow> reflexive_slot vk (snd f)) fs))"
| "reflexive_node vk (TemplateLiteral h qs es) = False"
| "reflexive_node vk (TSTemplateLiteralType h qs ts) = False"
| "reflexive_slot vk (One v) = (case v of Val n \<Rightarrow> reflexive_node vk n | _ \<Rightarrow> True)"
| "reflexive_slot vk (Many vs) =
     list_all (\<lambda>v. case v of Val n \<Rightarrow> reflexive_node vk n | _ \<Rightarrow> True) vs"

text \<open>The node under the \<open>ChainExpression\<close> layers at the top of a node.\<close>

fun core :: "node \<Rightarrow> node" where
  "core (ChainExpression h e) = core e"
| "core n = n"

text \<open>The table lists the key \<open>expression\<close> for \<open>TSNonNullExpression\<close>, if it lists the
  kind at all.\<close>

definition nonNullKeys :: "visitor_keys \<Rightarrow> bool" where
  "nonNullKeys vk = (case vk TTSNonNullExpression of None \<Rightarrow> True | Some ks \<Rightarrow> ''expression'' \<in> set ks)"

text \<open>The number of member and call layers on the way down the objects and callees of a
  node, seen through \<open>ChainExpression\<close> and \<open>TSNonNullExpression\<close>.\<close>

fun spine :: "node \<Rightarrow> nat" where
  "spine (MemberExpression h ob p cm opt) = Suc (spine ob)"
| "spine (CallExpression h cl as ta opt) = Suc (spine cl)"
| "spine (ChainExpression h e) = spine e"
| "spine (TSNonNullExpression h e) = spine e"
| "spine n = 0"

text \<open>
  For the proofs: the comparison without cache returns \<open>r\<close> on some stack; the comparer
  that answers what the comparison without cache returns on a stack deep enough; and what
  it means for two array elements, and for two slots, to compare \<open>Equal\<close>.
\<close>

definition returns :: "visitor_keys \<Rightarrow> node nullable \<Rightarrow> node nullable \<Rightarrow> NodeComparisonResult \<Rightarrow> bool" where
  "returns vk a b r = (\<exists>d. compareNodesNoCache d vk () a b = Inr (r, ()))"

definition limit_comparer :: "visitor_keys \<Rightarrow> unit comparer" where
  "limit_comparer vk u a b =
     (if returns vk a b Equal then Inr (Equal, ())
      else if returns vk a b Subset then Inr (Subset, ())
      else if returns vk a b Invalid then Inr (Invalid, ())
      else Inl RangeError)"

definition nullable_pair :: "'s comparer \<Rightarrow> 's \<Rightarrow> node nullable \<Rightarrow> node nullable \<Rightarrow> bool" where
  "nullable_pair cmp u v v' =
     (case v of
        Val n \<Rightarrow> (case v' of Val n' \<Rightarrow> cmp u (Val n) (Val n') = Inr (Equal, u) | _ \<Rightarrow> False)
      | _ \<Rightarrow> v' = v)"

definition slot_pair :: "'s comparer \<Rightarrow> 's \<Rightarrow> slot \<Rightarrow> slot \<Rightarrow> bool" where
  "slot_pair cmp u s s' =
     (case s of
        One v \<Rightarrow> compareUnknownValues cmp u (One v) s' = Inr (Equal, u)
      | Many vs \<Rightarrow> compareArrays cmp u vs s' = Inr (Equal, u))"

section \<open>Properties\<close>

subsection \<open>Kinds that never compare\<close>

lemma never_comparable_nocache:
  "never_comparable ka \<Longrightarrow> never_comparable kb \<Longrightarrow>
   compareNodesNoCache d vk () (Val (GenericNode ha ka fa)) (Val (GenericNode hb kb fb)) = Inr (r, ())
   \<Longrightarrow> r = Invalid"
  by (cases d) (auto simp: compareNodesUncached_def compareSameType_def compareDifferentTypes_def
      isValidChainExpressionToLookThrough_def never_comparable_def split: if_splits)

text \<open>
  Claim C3. Two nodes whose kinds are among the allocating kinds (array, object, class,
  function and arrow function expressions, \<open>new\<close>, JSX element and fragment),
  \<open>AssignmentExpression\<close>, \<open>UpdateExpression\<close> and \<open>YieldExpression\<close> compare as
  \<open>Invalid\<close>, whatever their fields are and also when they are the same node; this holds
  from any cache that holds only results of the comparison.
\<close>

theorem allocation_kinds_invalid:
  assumes "cache_sound vk c" "never_comparable ka" "never_comparable kb"
  shows "\<exists>c'. compareNodes (Suc d) vk c (Val (GenericNode ha ka fa)) (Val (GenericNode hb kb fb))
               = Inr (Invalid, c')"
proof (cases "c (GenericNode ha ka fa) (GenericNode hb kb fb)")
  case None
  with assms(2,3) show ?thesis
    by (auto simp: compareNodesUncached_def compareSameType_def compareDifferentTypes_def
      isValidChainExpressionToLookThrough_def never_comparable_def bind_res_def)
next
  case (Some r)
  with assms(1) obtain d' where
    "compareNodesNoCache d' vk () (Val (GenericNode ha ka fa)) (Val (GenericNode hb kb fb)) = Inr (r, ())"
    unfolding cache_sound_def by blast
  with assms(2,3) have "r = Invalid" by (rule never_comparable_nocache)
  with Some show ?thesis by simp
qed

theorem allocation_kinds_invalid_witness:
  "cache_sound exampleVisitorKeys emptyCache \<and> never_comparable ObjectExpression
   \<and> (\<exists>c'. compareNodes (Suc 0) exampleVisitorKeys emptyCache (Val ex4_object) (Val ex4_object)
             = Inr (Invalid, c'))"
  using allocation_kinds_invalid [of exampleVisitorKeys emptyCache ObjectExpression ObjectExpression 0
      "hdr_at 42 8 10" "[(''properties'', Many [])]" "hdr_at 42 8 10" "[(''properties'', Many [])]"]
  by (simp add: cache_sound_def emptyCache_def never_comparable_def ex4_object_def)

subsection \<open>Template literals\<close>

lemma same_quasis: "list_all (\<lambda>(elA, elB). elA = elB) (zip qs qs)"
  by (induction qs) auto

lemma template_self_overflow:
  "c (TemplateLiteral h qs es) (TemplateLiteral h qs es) = None \<Longrightarrow>
   compareNodes d vk c (Val (TemplateLiteral h qs es)) (Val (TemplateLiteral h qs es)) = Inl RangeError"
  by (induction d)
    (simp_all add: compareNodesUncached_def compareSameType_def same_quasis bind_res_def)

text \<open>
  Claim C4. The comparator does not return on every pair of finite trees: comparing a
  template literal with itself compares the same pair again before any result is cached,
  so on a stack of any depth the call ends in \<open>RangeError\<close>.
\<close>

theorem template_literal_self_overflows:
  "\<forall>d. compareNodes d exampleVisitorKeys emptyCache (Val ex6_templateA) (Val ex6_templateA)
        = Inl RangeError"
  by (simp add: ex6_templateA_def template_self_overflow emptyCache_def)

text \<open>
  Claim C5. Two template literals with the same cooked text and no substitution compare as
  \<open>Invalid\<close>, not \<open>Equal\<close>: their quasis are compared as objects, and they are different
  objects.
\<close>

theorem template_literal_same_text_invalid:
  "outcome (compareNodes 3 exampleVisitorKeys emptyCache (Val ex6_templateA) (Val ex6_templateB))
     = Inr Invalid"
  by code_simp

subsection \<open>Subset results\<close>

text \<open>
  Claim C2. For \<open>a[x]\<close> and \<open>a[x.y]\<close> the comparator answers \<open>Subset\<close>, and no node that
  peeling \<open>a[x.y]\<close> gives compares \<open>Equal\<close> to \<open>a[x]\<close>: the result of comparing the two
  properties is returned as it is.
\<close>

theorem subset_without_equal_prefix:
  "outcome (compareNodes 6 exampleVisitorKeys emptyCache (Val ex7_ax) (Val ex7_axy)) = Inr Subset
   \<and> list_all (\<lambda>b. outcome (compareNodes 6 exampleVisitorKeys emptyCache (Val ex7_ax) (Val b))
                      \<noteq> Inr Equal)
        (peels ex7_axy)"
  by code_simp

subsection \<open>The chain analyzer\<close>

lemma or_strict_alone:
  assumes "comparisonType operand = StrictEqualNull \<or> comparisonType operand = StrictEqualUndefined"
    and "\<forall>nxt. nth_opt chain (index + 1) = Some nxt \<longrightarrow>
            comparisonType nxt = counterpart (comparisonType operand) \<longrightarrow>
            (\<exists>r c1. cmp c (Val (comparedName operand)) (Val (comparedName nxt)) = Inr (r, c1) \<and> r \<noteq> Equal)"
  shows "\<exists>c1. analyzeOrChainOperand cmp c operand index chain = Inr (None, c1)"
  using assms
  by (cases "nth_opt chain (index + 1)")
     (auto simp: analyzeOrChainOperand_def pairWithNext_def bind_res_def)

lemma ex8_compare: "compareNodes 10 exampleVisitorKeys emptyCache (Val ex2_x1) (Val ex1_y) = Inr (Invalid, cache_set emptyCache ex2_x1 ex1_y Invalid)"
  by (simp add: eval_nat_numeral ex2_x1_def ex1_y_def emptyCache_def compareNodesUncached_def compareSameType_def bind_res_def)

lemma ex9_compare:
  "compareNodes 10 exampleVisitorKeys emptyCache (Val ex3_x1) (Val ex1_y)
     = Inr (Invalid, cache_set emptyCache ex3_x1 ex1_y Invalid)"
  by (simp add: eval_nat_numeral ex3_x1_def ex1_y_def emptyCache_def compareNodesUncached_def
        compareSameType_def bind_res_def)

text \<open>
  Claim C8. In an \<open>||\<close> run, an operand \<open>=== null\<close> or \<open>=== undefined\<close> that is not
  followed at once by its counterpart on a name that compares \<open>Equal\<close> is rejected: the
  analyzer returns \<open>null\<close> for it, and the loop closes the open chain and goes on with an
  empty one. For \<open>x === null || x === undefined\<close> the two operands are taken as one pair
  and nothing is reported.
\<close>

theorem or_strict_operand_rejected:
  assumes "index < length chain"
    and "comparisonType (chain ! index) = StrictEqualNull
         \<or> comparisonType (chain ! index) = StrictEqualUndefined"
    and "\<forall>nxt. nth_opt chain (index + 1) = Some nxt \<longrightarrow>
            comparisonType nxt = counterpart (comparisonType (chain ! index)) \<longrightarrow>
            (\<exists>r c1. cmp c (Val (comparedName (chain ! index))) (Val (comparedName nxt)) = Inr (r, c1)
                     \<and> r \<noteq> Equal)"
  shows "(\<exists>c1. analyzeOrChainOperand cmp c (chain ! index) index chain = Inr (None, c1)
            \<and> analyzeLoop analyzeOrChainOperand cmp chain index st c
                = analyzeLoop analyzeOrChainOperand cmp chain (index + 1) (maybeReportThenReset st []) c1)
         \<and> outcome (analyzeOrChainOperand (compareNodes 10 exampleVisitorKeys) emptyCache
                      (ex2_operands ! 0) 0 ex2_operands)
             = Inr (Some (Both (ex2_operands ! 0) (ex2_operands ! 1)))
         \<and> outcome (analyzeChain (compareNodes 10 exampleVisitorKeys) emptyCache ''||'' ex2_operands)
             = Inr []"
proof -
  from assms(2,3) have "\<exists>c1. analyzeOrChainOperand cmp c (chain ! index) index chain = Inr (None, c1)"
    by (rule or_strict_alone)
  then obtain c1 where
    a: "analyzeOrChainOperand cmp c (chain ! index) index chain = Inr (None, c1)" by blast
  have "analyzeLoop analyzeOrChainOperand cmp chain index st c
          = analyzeLoop analyzeOrChainOperand cmp chain (index + 1) (maybeReportThenReset st []) c1"
    using assms(1) a by (subst analyzeLoop.simps) (simp add: bind_res_def)
  with a have first: "\<exists>c1. analyzeOrChainOperand cmp c (chain ! index) index chain = Inr (None, c1)
            \<and> analyzeLoop analyzeOrChainOperand cmp chain index st c
                = analyzeLoop analyzeOrChainOperand cmp chain (index + 1) (maybeReportThenReset st []) c1"
    by blast
  have second: "outcome (analyzeOrChainOperand (compareNodes 10 exampleVisitorKeys) emptyCache
                      (ex2_operands ! 0) 0 ex2_operands)
             = Inr (Some (Both (ex2_operands ! 0) (ex2_operands ! 1)))"
    by code_simp
  have third: "outcome (analyzeChain (compareNodes 10 exampleVisitorKeys) emptyCache ''||'' ex2_operands)
             = Inr []"
    by code_simp
  from first second third show ?thesis by blast
qed

theorem or_strict_operand_rejected_witness:
  "0 < length ex8_operands
   \<and> comparisonType (ex8_operands ! 0) = StrictEqualNull
   \<and> comparisonType (ex8_operands ! 1) = counterpart (comparisonType (ex8_operands ! 0))
   \<and> outcome (compareNodes 10 exampleVisitorKeys emptyCache (Val (comparedName (ex8_operands ! 0)))
               (Val (comparedName (ex8_operands ! 1)))) = Inr Invalid
   \<and> outcome (analyzeOrChainOperand (compareNodes 10 exampleVisitorKeys) emptyCache
                (ex8_operands ! 0) 0 ex8_operands) = Inr None"
  using or_strict_operand_rejected [of 0 ex8_operands "compareNodes 10 exampleVisitorKeys" emptyCache
          "\<lparr>subChain = [], reports = []\<rparr>"]
  by (auto simp: ex8_operands_def nth_opt_def outcome_def ex8_compare)

text \<open>
  Claim C10. In an \<open>&&\<close> run, an operand \<open>!== null\<close> or \<open>!== undefined\<close> that is not
  followed at once by its counterpart on a name that compares \<open>Equal\<close> is accepted by
  itself; \<open>x !== null && x.y\<close> gives a chain of two operands and one diagnostic, from the
  start of \<open>x !== null\<close> to the end of \<open>x.y\<close>.
\<close>

theorem and_strict_operand_accepted:
  assumes "comparisonType operand = NotStrictEqualNull
           \<or> comparisonType operand = NotStrictEqualUndefined"
    and "\<forall>nxt. nth_opt chain (index + 1) = Some nxt \<longrightarrow>
            comparisonType nxt = counterpart (comparisonType operand) \<longrightarrow>
            (\<exists>r c1. cmp c (Val (comparedName operand)) (Val (comparedName nxt)) = Inr (r, c1)
                     \<and> r \<noteq> Equal)"
  shows "outcome (analyzeAndChainOperand cmp c operand index chain) = Inr (Some (Single operand))
         \<and> outcome (analyzeChain (compareNodes 10 exampleVisitorKeys) emptyCache ''&&'' ex3_operands)
             = Inr [PreferOptionalChain (loc_start (header ex3_notNull)) (loc_end (header ex3_xy))]
         \<and> map_sum id reported
              (chainVisitor (compareNodes 10 exampleVisitorKeys) (exampleServices ''x !== null && x.y'')
                 defaultOptions ex3_root initialState)
             = Inr [PreferOptionalChain (1, 0) (1, 17)]"
proof -
  have first: "outcome (analyzeAndChainOperand cmp c operand index chain) = Inr (Some (Single operand))"
    using assms
    by (cases "nth_opt chain (index + 1)")
       (auto simp: analyzeAndChainOperand_def pairWithNext_def bind_res_def outcome_def)
  have second: "outcome (analyzeChain (compareNodes 10 exampleVisitorKeys) emptyCache ''&&'' ex3_operands)
             = Inr [PreferOptionalChain (loc_start (header ex3_notNull)) (loc_end (header ex3_xy))]"
    by code_simp
  have third: "map_sum id reported
              (chainVisitor (compareNodes 10 exampleVisitorKeys) (exampleServices ''x !== null && x.y'')
                 defaultOptions ex3_root initialState)
             = Inr [PreferOptionalChain (1, 0) (1, 17)]"
    by code_simp
  from first second third show ?thesis by blast
qed

theorem and_strict_operand_accepted_witness:
  "comparisonType (ex9_operands ! 0) = NotStrictEqualNull
   \<and> comparisonType (ex9_operands ! 1) = counterpart (comparisonType (ex9_operands ! 0))
   \<and> outcome (compareNodes 10 exampleVisitorKeys emptyCache (Val (comparedName (ex9_operands ! 0)))
               (Val (comparedName (ex9_operands ! 1)))) = Inr Invalid
   \<and> outcome (analyzeAndChainOperand (compareNodes 10 exampleVisitorKeys) emptyCache
                (ex9_operands ! 0) 0 ex9_operands) = Inr (Some (Single (ex9_operands ! 0)))"
  using and_strict_operand_accepted [of "ex9_operands ! 0" ex9_operands 0
          "compareNodes 10 exampleVisitorKeys" emptyCache]
  by (auto simp: ex9_operands_def nth_opt_def outcome_def ex9_compare)

text \<open>
  Claim C7. The diagnostic of a closed chain does not run from the start of its first unit,
  and a chain of one unit is reported: for \<open>x !== null && x !== undefined && x.y\<close> the
  one diagnostic starts at column 14, the start of \<open>x !== undefined\<close>, and not at the
  start of \<open>x !== null\<close>; and for \<open>y != null && x !== null && x !== undefined\<close>, where
  the merged pair is all there is after \<open>y != null\<close> is closed, the pair is reported by
  itself, from column 13 to column 42.
\<close>

theorem merged_pair_reports:
  "outcome (analyzeChain (compareNodes 10 exampleVisitorKeys) emptyCache ''&&'' ex1_operands)
     = Inr [PreferOptionalChain (1, 14) (1, 36)]
   \<and> loc_start (header ex1_notNull) = (1, 0)
   \<and> outcome (analyzeChain (compareNodes 10 exampleVisitorKeys) emptyCache ''&&'' ex10_operands)
       = Inr [PreferOptionalChain (1, 13) (1, 42)]
   \<and> outcome (analyzeChain (compareNodes 10 exampleVisitorKeys) emptyCache ''&&''
                (drop 1 ex10_operands))
       = Inr []"
  by code_simp

subsection \<open>The empty-object fallback\<close>

text \<open>
  Claim C9. For an \<open>||\<close> or \<open>??\<close> expression whose right operand is an empty object
  literal and whose parent is a member expression that is not optional, the first visitor
  adds the logical expression to \<open>seenLogicals\<close> and suggests replacing the member
  expression by the text of the left operand, in parentheses exactly when its precedence is
  below \<open>LeftHandSide\<close>, then \<open>?.\<close>, then the property, in brackets when computed; the
  second visitor, run on that node afterwards, returns at once. \<open>(foo || {}).bar\<close> gives
  \<open>foo?.bar\<close> and \<open>((a ? b : c) || {}).bar\<close> gives \<open>(a ? b : c)?.bar\<close>.
\<close>

theorem empty_object_fallback:
  assumes "opr = ''||'' \<or> opr = ''??''"
    and "ntype rightNode = TKind ObjectExpression"
    and "get_field rightNode ''properties'' = Many []"
  shows "emptyObjectVisitor sv (LogicalExpression h opr leftNode rightNode)
             (Val (MemberExpression hp ob property computed False)) st
           = st\<lparr>seenLogicals := insert (LogicalExpression h opr leftNode rightNode) (seenLogicals st),
                 reported := reported st @
                   [OptionalChainSuggest (MemberExpression hp ob property computed False) (range_of hp)
                      ((if getOperatorPrecedence sv (tsKind sv leftNode)
                              (tsOperator sv (LogicalExpression h opr leftNode rightNode))
                            < LeftHandSide sv
                        then ''('' @ getText sv leftNode @ '')'' else getText sv leftNode)
                       @ ''?.''
                       @ (if computed then ''['' @ getText sv property @ '']''
                          else getText sv property))]\<rparr>
         \<and> chainVisitor cmp sv options (LogicalExpression h opr leftNode rightNode)
               (emptyObjectVisitor sv (LogicalExpression h opr leftNode rightNode)
                  (Val (MemberExpression hp ob property computed False)) st)
             = Inr (emptyObjectVisitor sv (LogicalExpression h opr leftNode rightNode)
                      (Val (MemberExpression hp ob property computed False)) st)
         \<and> reported (emptyObjectVisitor (exampleServices ex4_source) ex4_logical (Val ex4_member)
                        initialState)
             = [OptionalChainSuggest ex4_member (0, 15) ''foo?.bar'']
         \<and> reported (emptyObjectVisitor (exampleServices ex5_source) ex5_logical (Val ex5_member)
                        initialState)
             = [OptionalChainSuggest ex5_member (0, 23) ''(a ? b : c)?.bar'']"
proof -
  let ?n = "LogicalExpression h opr leftNode rightNode"
  let ?p = "Val (MemberExpression hp ob property computed False)"
  have visit: "emptyObjectVisitor sv ?n ?p st
           = st\<lparr>seenLogicals := insert ?n (seenLogicals st),
                 reported := reported st @
                   [OptionalChainSuggest (MemberExpression hp ob property computed False) (range_of hp)
                      ((if getOperatorPrecedence sv (tsKind sv leftNode) (tsOperator sv ?n)
                            < LeftHandSide sv
                        then ''('' @ getText sv leftNode @ '')'' else getText sv leftNode)
                       @ ''?.''
                       @ (if computed then ''['' @ getText sv property @ '']''
                          else getText sv property))]\<rparr>"
    using assms
    by (simp add: emptyObjectVisitor_def optionalChainText_def isLeftSideLowerPrecedence_def Let_def)
  have seen: "?n \<in> seenLogicals (emptyObjectVisitor sv ?n ?p st)"
    by (simp add: visit)
  have skip: "chainVisitor cmp sv options ?n (emptyObjectVisitor sv ?n ?p st)
                = Inr (emptyObjectVisitor sv ?n ?p st)"
    using seen by (simp add: chainVisitor_def)
  have e4: "reported (emptyObjectVisitor (exampleServices ex4_source) ex4_logical (Val ex4_member)
                        initialState)
             = [OptionalChainSuggest ex4_member (0, 15) ''foo?.bar'']"
    by code_simp
  have e5: "reported (emptyObjectVisitor (exampleServices ex5_source) ex5_logical (Val ex5_member)
                        initialState)
             = [OptionalChainSuggest ex5_member (0, 23) ''(a ? b : c)?.bar'']"
    by code_simp
  from visit skip e4 e5 show ?thesis by blast
qed

theorem empty_object_fallback_witness:
  "ntype ex4_object = TKind ObjectExpression \<and> get_field ex4_object ''properties'' = Many []
   \<and> chainVisitor (compareNodes 10 exampleVisitorKeys) (exampleServices ex4_source) defaultOptions
        ex4_logical
        (emptyObjectVisitor (exampleServices ex4_source) ex4_logical (Val ex4_member) initialState)
       = Inr (emptyObjectVisitor (exampleServices ex4_source) ex4_logical (Val ex4_member)
                initialState)"
proof -
  have a: "''||'' = ''||'' \<or> ''||'' = ''??''" by simp
  have b: "ntype ex4_object = TKind ObjectExpression" by (simp add: ex4_object_def)
  have c: "get_field ex4_object ''properties'' = Many []" by (simp add: ex4_object_def)
  note t = empty_object_fallback [OF a b c, of "exampleServices ex4_source"
          "(hdr_at 43 1 10)\<lparr>parent := ParentMemberObject\<rparr>" ex4_foo "hdr_at 45 0 15"
          "LogicalExpression ((hdr_at 43 1 10)\<lparr>parent := ParentMemberObject\<rparr>) ''||'' ex4_foo ex4_object"
          ex4_bar False initialState "compareNodes 10 exampleVisitorKeys" defaultOptions]
  show ?thesis
    unfolding ex4_logical_def ex4_member_def
    by (intro conjI) (rule b, rule c, rule t [THEN conjunct2, THEN conjunct1])
qed

subsection \<open>The cache\<close>

text \<open>Each helper of the comparator carries the relation between two comparers over to
  its own runs.\<close>

lemma ev_rel_return: "R s t \<Longrightarrow> ev_rel R (Inr (x, s)) (\<lambda>d. Inr (x, t))"
  by (auto simp: ev_rel_def)

lemma ev_rel_fail: "ev_rel R (Inl e) fam"
  by (simp add: ev_rel_def)

lemma ev_rel_bind:
  assumes m: "ev_rel R m fam"
    and f: "\<And>r s' t'. R s' t' \<Longrightarrow> ev_rel R (f r s') (\<lambda>d. g d r t')"
  shows "ev_rel R (bind_res m f) (\<lambda>d. bind_res (fam d) (g d))"
  unfolding ev_rel_def
proof (intro allI impI)
  fix x s''
  assume b: "bind_res m f = Inr (x, s'')"
  then obtain r s' where m1: "m = Inr (r, s')" and f1: "f r s' = Inr (x, s'')"
    by (auto simp: bind_res_def split: sum.splits)
  from m m1 obtain d1 t' where r1: "R s' t'" and e1: "\<forall>d'\<ge>d1. fam d' = Inr (r, t')"
    unfolding ev_rel_def by blast
  from f [OF r1, of r] f1 obtain d2 t'' where r2: "R s'' t''" and e2: "\<forall>d'\<ge>d2. g d' r t' = Inr (x, t'')"
    unfolding ev_rel_def by blast
  have "\<forall>d'\<ge>max d1 d2. bind_res (fam d') (g d') = Inr (x, t'')"
    using e1 e2 by (simp add: bind_res_def)
  with r2 show "\<exists>d t'. R s'' t' \<and> (\<forall>d'\<ge>d. bind_res (fam d') (g d') = Inr (x, t'))" by blast
qed

lemma cmp_relD: "cmp_rel R cmp1 cmp2 \<Longrightarrow> R s t \<Longrightarrow> ev_rel R (cmp1 s a b) (\<lambda>d. cmp2 d t a b)"
  by (simp add: cmp_rel_def)

lemma compareUnknownValues_rel:
  assumes "cmp_rel R cmp1 cmp2" "R s t"
  shows "ev_rel R (compareUnknownValues cmp1 s va vb) (\<lambda>d. compareUnknownValues (cmp2 d) t va vb)"
  using assms
  by (auto simp: compareUnknownValues_def ev_rel_return cmp_relD split: slot.splits nullable.splits)

lemma every_equal_rel:
  assumes "cmp_rel R cmp1 cmp2" "R s t"
  shows "ev_rel R (every_equal cmp1 s ps) (\<lambda>d. every_equal (cmp2 d) t ps)"
  using assms(2)
proof (induction ps arbitrary: s t)
  case Nil
  then show ?case by (simp add: ev_rel_return)
next
  case (Cons p ps)
  obtain elA elB where p: "p = (elA, elB)" by (cases p)
  show ?case
    unfolding p every_equal.simps
    by (auto intro!: ev_rel_bind ev_rel_return compareUnknownValues_rel [OF assms(1)] Cons)
qed

lemma compareArrays_rel:
  assumes "cmp_rel R cmp1 cmp2" "R s t"
  shows "ev_rel R (compareArrays cmp1 s arrayA arrayB) (\<lambda>d. compareArrays (cmp2 d) t arrayA arrayB)"
  using assms(2) unfolding compareArrays_def
  by (auto intro!: ev_rel_bind ev_rel_return ev_rel_fail every_equal_rel [OF assms(1)]
        split: slot.splits nullable.splits)

lemma visit_keys_rel:
  assumes "cmp_rel R cmp1 cmp2" "R s t"
  shows "ev_rel R (visit_keys cmp1 s nodeA nodeB ks) (\<lambda>d. visit_keys (cmp2 d) t nodeA nodeB ks)"
  using assms(2)
proof (induction ks arbitrary: s t)
  case Nil
  then show ?case by (simp add: ev_rel_return)
next
  case (Cons k ks)
  show ?case
    unfolding visit_keys.simps
    by (auto intro!: ev_rel_bind ev_rel_return compareUnknownValues_rel [OF assms(1)]
          compareArrays_rel [OF assms(1)] Cons split: slot.splits)
qed

lemma compareByVisiting_rel:
  assumes "cmp_rel R cmp1 cmp2" "R s t"
  shows "ev_rel R (compareByVisiting vk cmp1 s nodeA nodeB)
           (\<lambda>d. compareByVisiting vk (cmp2 d) t nodeA nodeB)"
  using assms(2) unfolding compareByVisiting_def
  by (auto intro!: ev_rel_return visit_keys_rel [OF assms(1)] split: option.splits)

lemma subset_or_invalid_rel:
  assumes "ev_rel R m fam"
  shows "ev_rel R (subset_or_invalid m) (\<lambda>d. subset_or_invalid (fam d))"
  unfolding subset_or_invalid_def
  by (rule ev_rel_bind [OF assms]) (auto intro: ev_rel_return)

lemma compareDifferentTypes_rel:
  assumes "cmp_rel R cmp1 cmp2" "R s t"
  shows "ev_rel R (compareDifferentTypes cmp1 s nodeA nodeB)
           (\<lambda>d. compareDifferentTypes (cmp2 d) t nodeA nodeB)"
  using assms unfolding compareDifferentTypes_def
  by (auto intro!: ev_rel_return subset_or_invalid_rel cmp_relD split: node.splits)

lemma compareSameType_rel:
  assumes "cmp_rel R cmp1 cmp2" "R s t"
  shows "ev_rel R (compareSameType vk cmp1 s nodeA nodeB)
           (\<lambda>d. compareSameType vk (cmp2 d) t nodeA nodeB)"
  using assms(2) unfolding compareSameType_def
  by (auto intro!: ev_rel_bind ev_rel_return ev_rel_fail cmp_relD [OF assms(1)]
        compareByVisiting_rel [OF assms(1)] compareArrays_rel [OF assms(1)]
        split: node.splits)

lemma compareNodesUncached_rel:
  assumes "cmp_rel R cmp1 cmp2" "R s t"
  shows "ev_rel R (compareNodesUncached vk cmp1 s nodeA nodeB)
           (\<lambda>d. compareNodesUncached vk (cmp2 d) t nodeA nodeB)"
  using assms unfolding compareNodesUncached_def
  by (auto intro!: compareDifferentTypes_rel compareSameType_rel)

text \<open>A deeper stack does not change a result of the comparison without cache.\<close>

lemma noCache_mono_Suc:
  "compareNodesNoCache d vk u a b = Inr x \<Longrightarrow> compareNodesNoCache (Suc d) vk u a b = Inr x"
proof (induction d arbitrary: a b x u)
  case 0
  then show ?case by simp
next
  case (Suc d)
  have rel: "cmp_rel (\<lambda>(s::unit) (t::unit). True) (compareNodesNoCache d vk)
               (\<lambda>k. compareNodesNoCache (Suc d) vk)"
    unfolding cmp_rel_def ev_rel_def using Suc.IH
    by (auto simp del: compareNodesNoCache.simps)
  show ?case
  proof (cases "\<exists>a' b'. a = Val a' \<and> b = Val b'")
    case True
    then obtain a' b' where ab: "a = Val a'" "b = Val b'" by blast
    obtain r where x: "x = (r, ())" by (cases x) auto
    from Suc.prems have "compareNodesUncached vk (compareNodesNoCache d vk) u a' b' = Inr (r, ())"
      by (simp add: ab x)
    moreover have "ev_rel (\<lambda>(s::unit) (t::unit). True)
            (compareNodesUncached vk (compareNodesNoCache d vk) u a' b')
            (\<lambda>k. compareNodesUncached vk (compareNodesNoCache (Suc d) vk) u a' b')"
      by (rule compareNodesUncached_rel [OF rel]) simp
    ultimately have "compareNodesUncached vk (compareNodesNoCache (Suc d) vk) u a' b' = Inr (r, ())"
      unfolding ev_rel_def by auto
    then show ?thesis by (simp add: ab x)
  next
    case False
    with Suc.prems show ?thesis
      by (cases a; cases b) auto
  qed
qed

lemma noCache_mono_add:
  "compareNodesNoCache d vk u a b = Inr x \<Longrightarrow> compareNodesNoCache (d + k) vk u a b = Inr x"
proof (induction k)
  case 0
  then show ?case by simp
next
  case (Suc k)
  then have "compareNodesNoCache (Suc (d + k)) vk u a b = Inr x"
    by (intro noCache_mono_Suc) simp
  then show ?case by (simp only: add_Suc_right)
qed

lemma noCache_mono:
  assumes "d \<le> d'" "compareNodesNoCache d vk u a b = Inr x"
  shows "compareNodesNoCache d' vk u a b = Inr x"
proof -
  from assms(1) obtain k where "d' = d + k" using le_Suc_ex by blast
  with assms(2) show ?thesis by (simp only: noCache_mono_add)
qed

lemma noCache_deterministic:
  assumes "compareNodesNoCache d1 vk u a b = Inr x1" "compareNodesNoCache d2 vk u a b = Inr x2"
  shows "x1 = x2"
proof -
  have "compareNodesNoCache (max d1 d2) vk u a b = Inr x1"
    using assms(1) by (rule noCache_mono [rotated]) simp
  moreover have "compareNodesNoCache (max d1 d2) vk u a b = Inr x2"
    using assms(2) by (rule noCache_mono [rotated]) simp
  ultimately show ?thesis by simp
qed

lemma cache_sound_set:
  assumes "cache_sound vk c" "compareNodesNoCache d vk () (Val a) (Val b) = Inr (r, ())"
  shows "cache_sound vk (cache_set c a b r)"
  using assms unfolding cache_sound_def cache_set_def
  by (auto split: if_splits)

lemma cached_to_noCache:
  "cmp_rel (\<lambda>c (u::unit). cache_sound vk c) (compareNodes d vk) (\<lambda>k. compareNodesNoCache k vk)"
proof (induction d)
  case 0
  show ?case by (simp add: cmp_rel_def ev_rel_def)
next
  case (Suc d)
  show ?case
    unfolding cmp_rel_def ev_rel_def
  proof (intro allI impI)
    fix c :: cache and u :: unit and a b r c'
    assume snd: "cache_sound vk c" and run: "compareNodes (Suc d) vk c a b = Inr (r, c')"
    show "\<exists>k t'. cache_sound vk c' \<and> (\<forall>k'\<ge>k. compareNodesNoCache k' vk u a b = Inr (r, t'))"
    proof (cases "\<exists>a' b'. a = Val a' \<and> b = Val b'")
      case False
      with run have r: "r = (if a \<noteq> b then Invalid else Equal)" and c: "c' = c"
        by (cases a; cases b; auto)+
      have "\<forall>k'\<ge>Suc 0. compareNodesNoCache k' vk u a b = Inr (r, u)"
      proof (intro allI impI)
        fix k' assume "Suc 0 \<le> k'"
        then obtain k'' where "k' = Suc k''" by (cases k') auto
        with False r show "compareNodesNoCache k' vk u a b = Inr (r, u)"
          by (cases a; cases b) auto
      qed
      with snd c show ?thesis by blast
    next
      case True
      then obtain a' b' where ab: "a = Val a'" "b = Val b'" by blast
      show ?thesis
      proof (cases "c a' b'")
        case (Some r0)
        with run have r: "r = r0" and c: "c' = c" by (auto simp: ab)
        from snd Some obtain k where "compareNodesNoCache k vk () (Val a') (Val b') = Inr (r0, ())"
          unfolding cache_sound_def by blast
        then have "\<forall>k'\<ge>k. compareNodesNoCache k' vk u a b = Inr (r, u)"
          using noCache_mono by (auto simp: ab r)
        with snd c show ?thesis by blast
      next
        case None
        with run obtain c1 where
          unc: "compareNodesUncached vk (compareNodes d vk) c a' b' = Inr (r, c1)"
          and c: "c' = cache_set c1 a' b' r"
          by (auto simp: ab bind_res_def split: sum.splits)
        have "ev_rel (\<lambda>c (u::unit). cache_sound vk c)
                (compareNodesUncached vk (compareNodes d vk) c a' b')
                (\<lambda>k. compareNodesUncached vk (compareNodesNoCache k vk) u a' b')"
          by (rule compareNodesUncached_rel [OF Suc]) (rule snd)
        with unc obtain k t' where s1: "cache_sound vk c1"
          and ev: "\<forall>k'\<ge>k. compareNodesUncached vk (compareNodesNoCache k' vk) u a' b' = Inr (r, t')"
          unfolding ev_rel_def by blast
        have ev': "\<forall>k'\<ge>Suc k. compareNodesNoCache k' vk u a b = Inr (r, u)"
        proof (intro allI impI)
          fix k' assume "Suc k \<le> k'"
          then obtain k'' where "k' = Suc k''" "k \<le> k''" by (cases k') auto
          with ev show "compareNodesNoCache k' vk u a b = Inr (r, u)" by (simp add: ab)
        qed
        from ev' have "compareNodesNoCache (Suc k) vk u a b = Inr (r, u)"
          by blast
        then have "compareNodesNoCache (Suc k) vk () (Val a') (Val b') = Inr (r, ())"
          by (simp add: ab del: compareNodesNoCache.simps)
        with s1 have "cache_sound vk c'" unfolding c by (rule cache_sound_set)
        with ev' show ?thesis by blast
      qed
    qed
  qed
qed

lemma noCache_to_cached:
  "cmp_rel (\<lambda>(u::unit) c. cache_sound vk c) (compareNodesNoCache d vk) (\<lambda>k. compareNodes d vk)"
proof (induction d)
  case 0
  show ?case by (simp add: cmp_rel_def ev_rel_def)
next
  case (Suc d)
  show ?case
    unfolding cmp_rel_def ev_rel_def
  proof (intro allI impI)
    fix u :: unit and c :: cache and a b r u'
    assume snd: "cache_sound vk c" and run: "compareNodesNoCache (Suc d) vk u a b = Inr (r, u')"
    have "\<exists>c'. cache_sound vk c' \<and> compareNodes (Suc d) vk c a b = Inr (r, c')"
    proof (cases "\<exists>a' b'. a = Val a' \<and> b = Val b'")
      case False
      with run snd show ?thesis by (cases a; cases b) auto
    next
      case True
      then obtain a' b' where ab: "a = Val a'" "b = Val b'" by blast
      from run have run': "compareNodesNoCache (Suc d) vk () (Val a') (Val b') = Inr (r, ())"
        by (simp add: ab)
      show ?thesis
      proof (cases "c a' b'")
        case (Some r0)
        from snd Some obtain k where "compareNodesNoCache k vk () (Val a') (Val b') = Inr (r0, ())"
          unfolding cache_sound_def by blast
        with run' have "r0 = r" using noCache_deterministic by blast
        with Some snd show ?thesis by (auto simp: ab)
      next
        case None
        from run have unc: "compareNodesUncached vk (compareNodesNoCache d vk) u a' b' = Inr (r, u')"
          by (simp add: ab)
        have "ev_rel (\<lambda>(u::unit) c. cache_sound vk c)
                (compareNodesUncached vk (compareNodesNoCache d vk) u a' b')
                (\<lambda>k. compareNodesUncached vk (compareNodes d vk) c a' b')"
          by (rule compareNodesUncached_rel [OF Suc]) (rule snd)
        with unc obtain c1 where s1: "cache_sound vk c1"
          and ev: "compareNodesUncached vk (compareNodes d vk) c a' b' = Inr (r, c1)"
          unfolding ev_rel_def by blast
        from s1 run' have "cache_sound vk (cache_set c1 a' b' r)" by (rule cache_sound_set)
        with ev None show ?thesis by (auto simp: ab bind_res_def)
      qed
    qed
    then show "\<exists>k t'. cache_sound vk t' \<and> (\<forall>k'\<ge>k. compareNodes (Suc d) vk c a b = Inr (r, t'))"
      by blast
  qed
qed

lemma compareNodes_caches:
  assumes "compareNodes d vk c a b = Inr (r, c')"
  shows "compareNodes (Suc k) vk c' a b = Inr (r, c')"
proof (cases d)
  case 0
  with assms show ?thesis by simp
next
  case (Suc d0)
  show ?thesis
  proof (cases "\<exists>a' b'. a = Val a' \<and> b = Val b'")
    case False
    with assms Suc show ?thesis by (cases a; cases b) auto
  next
    case True
    then obtain a' b' where ab: "a = Val a'" "b = Val b'" by blast
    from assms Suc have "c' a' b' = Some r"
      by (cases "c a' b'") (auto simp: ab bind_res_def cache_set_def split: sum.splits)
    then show ?thesis by (simp add: ab)
  qed
qed

lemma ex3_run:
  "compareNodes 3 exampleVisitorKeys emptyCache (Val ex3_x1) (Val ex3_xy)
     = Inr (Subset, cache_set (cache_set emptyCache ex3_x1 ex3_x2 Equal) ex3_x1 ex3_xy Subset)"
  by (simp add: eval_nat_numeral ex3_x1_def ex3_xy_def ex3_x2_def ex3_y_def emptyCache_def
        compareNodesUncached_def compareSameType_def compareDifferentTypes_def
        isValidChainExpressionToLookThrough_def subset_or_invalid_def bind_res_def hdr_at_def)

text \<open>
  Claim C6. From a cache that holds only results of the comparison, a call of
  \<open>compareNodes\<close> that returns leaves such a cache, returns what the comparison without
  cache returns on a stack deep enough, returns the same again when called once more, and
  returns the same as any other call on the same pair from any such cache; and whenever the
  comparison without cache returns, \<open>compareNodes\<close> returns the same on the same stack.
  The empty cache is such a cache.
\<close>

theorem memoization_transparent:
  assumes "cache_sound vk c"
  shows "(compareNodes d vk c a b = Inr (r, c') \<longrightarrow>
            cache_sound vk c'
            \<and> (\<exists>k. compareNodesNoCache k vk () a b = Inr (r, ()))
            \<and> compareNodes (Suc k') vk c' a b = Inr (r, c')
            \<and> (\<forall>c2 d2 r2 c2'. cache_sound vk c2 \<longrightarrow> compareNodes d2 vk c2 a b = Inr (r2, c2')
                   \<longrightarrow> r2 = r))
         \<and> (compareNodesNoCache d vk () a b = Inr (r, ()) \<longrightarrow>
              (\<exists>c''. compareNodes d vk c a b = Inr (r, c'') \<and> cache_sound vk c''))"
proof (intro conjI impI)
  assume run: "compareNodes d vk c a b = Inr (r, c')"
  from cached_to_noCache [of vk d] assms run
  obtain k where s: "cache_sound vk c'" and nc: "compareNodesNoCache k vk () a b = Inr (r, ())"
    unfolding cmp_rel_def ev_rel_def by (metis le_refl old.unit.exhaust)
  from s show "cache_sound vk c'" .
  from nc show "\<exists>k. compareNodesNoCache k vk () a b = Inr (r, ())" by blast
  from run show "compareNodes (Suc k') vk c' a b = Inr (r, c')" by (rule compareNodes_caches)
  show "\<forall>c2 d2 r2 c2'. cache_sound vk c2 \<longrightarrow> compareNodes d2 vk c2 a b = Inr (r2, c2') \<longrightarrow> r2 = r"
  proof (intro allI impI)
    fix c2 d2 r2 c2'
    assume s2: "cache_sound vk c2" and run2: "compareNodes d2 vk c2 a b = Inr (r2, c2')"
    from cached_to_noCache [of vk d2] s2 run2
    obtain k2 where "compareNodesNoCache k2 vk () a b = Inr (r2, ())"
      unfolding cmp_rel_def ev_rel_def by (metis le_refl old.unit.exhaust)
    with nc show "r2 = r" using noCache_deterministic by blast
  qed
next
  assume "compareNodesNoCache d vk () a b = Inr (r, ())"
  with noCache_to_cached [of vk d] assms
  show "\<exists>c''. compareNodes d vk c a b = Inr (r, c'') \<and> cache_sound vk c''"
    unfolding cmp_rel_def ev_rel_def by (metis le_refl)
qed

theorem memoization_transparent_witness:
  "cache_sound exampleVisitorKeys emptyCache
   \<and> (\<exists>c'. compareNodes 3 exampleVisitorKeys emptyCache (Val ex3_x1) (Val ex3_xy) = Inr (Subset, c')
          \<and> cache_sound exampleVisitorKeys c'
          \<and> compareNodes 1 exampleVisitorKeys c' (Val ex3_x1) (Val ex3_xy) = Inr (Subset, c')
          \<and> (\<exists>k. compareNodesNoCache k exampleVisitorKeys () (Val ex3_x1) (Val ex3_xy)
                   = Inr (Subset, ())))"
proof -
  have s: "cache_sound exampleVisitorKeys emptyCache"
    by (simp add: cache_sound_def emptyCache_def)
  from memoization_transparent [OF s, of 3 "Val ex3_x1" "Val ex3_xy" Subset
        "cache_set (cache_set emptyCache ex3_x1 ex3_x2 Equal) ex3_x1 ex3_xy Subset" 0] ex3_run s
  show ?thesis by (simp only: One_nat_def) blast
qed

subsection \<open>Reflexivity\<close>

lemma returns_unique: "returns vk a b r \<Longrightarrow> returns vk a b r' \<Longrightarrow> r = r'"
  unfolding returns_def using noCache_deterministic by blast

lemma limit_returns: "returns vk a b r \<Longrightarrow> limit_comparer vk u a b = Inr (r, ())"
  using returns_unique [of vk a b r]
  by (cases r) (auto simp: limit_comparer_def)

lemma limit_rel:
  "cmp_rel (\<lambda>(s::unit) (t::unit). True) (limit_comparer vk) (\<lambda>d. compareNodesNoCache d vk)"
  unfolding cmp_rel_def ev_rel_def
proof (intro allI impI)
  fix s t :: unit and a b r s'
  assume "limit_comparer vk s a b = Inr (r, s')"
  then have "returns vk a b r"
    by (auto simp: limit_comparer_def split: if_splits)
  then obtain d where "compareNodesNoCache d vk () a b = Inr (r, ())"
    unfolding returns_def by blast
  then have "\<forall>d'\<ge>d. compareNodesNoCache d' vk t a b = Inr (r, ())"
    using noCache_mono by simp
  then show "\<exists>d t'. True \<and> (\<forall>d'\<ge>d. compareNodesNoCache d' vk t a b = Inr (r, t'))"
    by blast
qed

lemma uncached_limit:
  assumes "compareNodesUncached vk (limit_comparer vk) () A B = Inr (r, ())"
  shows "returns vk (Val A) (Val B) r"
proof -
  have "ev_rel (\<lambda>(s::unit) (t::unit). True)
          (compareNodesUncached vk (limit_comparer vk) () A B)
          (\<lambda>d. compareNodesUncached vk (compareNodesNoCache d vk) () A B)"
    by (rule compareNodesUncached_rel [OF limit_rel]) simp
  with assms obtain d where
    "compareNodesUncached vk (compareNodesNoCache d vk) () A B = Inr (r, ())"
    unfolding ev_rel_def by auto
  then have "compareNodesNoCache (Suc d) vk () (Val A) (Val B) = Inr (r, ())" by simp
  then show ?thesis unfolding returns_def by blast
qed

lemma returns_nullish:
  "is_nullish a \<or> is_nullish b \<Longrightarrow> returns vk a b (if a \<noteq> b then Invalid else Equal)"
  unfolding returns_def
  by (rule exI [of _ "Suc 0"]) (cases a; cases b; simp add: is_nullish_def)

lemma visit_nonNull_invalid:
  assumes "cmp u (Val ea) (Val eb) = Inr (Invalid, u)" "''expression'' \<in> set ks"
  shows "visit_keys cmp u (TSNonNullExpression ha ea) (TSNonNullExpression hb eb) ks = Inr (Invalid, u)"
  using assms(2)
proof (induction ks)
  case Nil
  then show ?case by simp
next
  case (Cons k ks)
  show ?case
  proof (cases "k = ''expression''")
    case True
    with assms(1) show ?thesis
      by (simp add: compareUnknownValues_def slot_nullish_def is_nullish_def bind_res_def)
  next
    case False
    with Cons show ?thesis
      by (simp add: compareUnknownValues_def slot_nullish_def is_nullish_def bind_res_def)
  qed
qed

lemma deeper_invalid:
  assumes keys: "nonNullKeys vk"
  shows "spine Z < spine Y \<Longrightarrow> returns vk (Val Y) (Val Z) Invalid"
proof (induction "size Y + size Z" arbitrary: Y Z rule: less_induct)
  case less
  have IH: "\<And>Y' Z'. size Y' + size Z' < size Y + size Z \<Longrightarrow> spine Z' < spine Y'
              \<Longrightarrow> limit_comparer vk () (Val Y') (Val Z') = Inr (Invalid, ())"
    using less.hyps limit_returns by blast
  have "compareNodesUncached vk (limit_comparer vk) () Y Z = Inr (Invalid, ())"
  proof (cases "ntype Y = ntype Z")
    case False
    with less.prems show ?thesis
      by (cases Y; cases Z)
         (auto simp: compareNodesUncached_def compareDifferentTypes_def
            isValidChainExpressionToLookThrough_def expression_def subset_or_invalid_def
            bind_res_def IH)
  next
    case True
    show ?thesis
    proof (cases Y)
      case (MemberExpression h ob p cm opt)
      with True less.prems show ?thesis
        by (cases Z) (auto simp: compareNodesUncached_def compareSameType_def bind_res_def IH)
    next
      case (CallExpression h cl as ta opt)
      with True less.prems show ?thesis
        by (cases Z) (auto simp: compareNodesUncached_def compareSameType_def bind_res_def IH)
    next
      case (ChainExpression h e)
      with True less.prems show ?thesis
        by (cases Z) (auto simp: compareNodesUncached_def compareSameType_def expression_def IH)
    next
      case (TSNonNullExpression h e)
      with True obtain h' e' where Z: "Z = TSNonNullExpression h' e'" by (cases Z) auto
      from less.prems have "limit_comparer vk () (Val e) (Val e') = Inr (Invalid, ())"
        by (intro IH) (auto simp: TSNonNullExpression Z)
      with keys show ?thesis
        by (auto simp: compareNodesUncached_def compareSameType_def compareByVisiting_def
              TSNonNullExpression Z nonNullKeys_def visit_nonNull_invalid split: option.splits)
    qed (use less.prems in auto)
  qed
  then show ?case by (rule uncached_limit)
qed

lemma same_ntype: "same_structure A B \<Longrightarrow> ntype B = ntype A"
  by (cases A) (auto split: node.splits)

lemma same_spine: "same_structure A B \<longrightarrow> spine B = spine A" "same_slot s s' \<longrightarrow> True"
  by (induction A B and s s' rule: same_structure_same_slot.induct)
     (auto split: node.splits)

lemma same_structure_refl: "A = B \<longrightarrow> same_structure A B" "s = s' \<longrightarrow> same_slot s s'"
proof (induction A B and s s' rule: same_structure_same_slot.induct)
  case (6 h cl as ta opt b)
  then show ?case
    by (auto simp: list_all2_same split: nullable.splits)
next
  case (9 h qs es b)
  then show ?case by (auto simp: list_all2_same)
next
  case (10 h qs ts b)
  then show ?case by (auto simp: list_all2_same)
next
  case (14 h k fs b)
  then show ?case by (auto simp: list_all2_same)
next
  case (15 v s')
  then show ?case by (auto split: nullable.splits)
next
  case (16 vs s')
  then show ?case by (auto simp: list_all2_same split: nullable.splits)
qed auto

lemma every_equal_pair:
  "list_all2 (nullable_pair cmp u) vs vs' \<Longrightarrow> every_equal cmp u (zip vs vs') = Inr (True, u)"
proof (induction vs vs' rule: list_all2_induct)
  case Nil
  then show ?case by simp
next
  case (Cons v vs v' vs')
  then show ?case
    by (cases v; cases v')
       (auto simp: nullable_pair_def is_nullish_def compareUnknownValues_def slot_nullish_def
          bind_res_def)
qed

lemma compareArrays_pair:
  "list_all2 (nullable_pair cmp u) vs vs' \<Longrightarrow> compareArrays cmp u vs (Many vs') = Inr (Equal, u)"
  using every_equal_pair [of cmp u vs vs'] list_all2_lengthD [of "nullable_pair cmp u" vs vs']
  by (simp add: compareArrays_def bind_res_def)

lemma visit_keys_pair:
  assumes "\<And>k. k \<in> set ks \<Longrightarrow> slot_pair cmp u (get_field A k) (get_field B k)"
  shows "visit_keys cmp u A B ks = Inr (Equal, u)"
  using assms
proof (induction ks)
  case Nil
  then show ?case by simp
next
  case (Cons k ks)
  from Cons.prems have "slot_pair cmp u (get_field A k) (get_field B k)" by simp
  moreover from Cons have "visit_keys cmp u A B ks = Inr (Equal, u)" by simp
  ultimately show ?case
    by (cases "get_field A k") (auto simp: slot_pair_def bind_res_def)
qed

lemma compareByVisiting_pair:
  assumes "vk (ntype A) = Some ks" "\<And>k. k \<in> set ks \<Longrightarrow> slot_pair cmp u (get_field A k) (get_field B k)"
  shows "compareByVisiting vk cmp u A B = Inr (Equal, u)"
  using assms by (auto simp: compareByVisiting_def visit_keys_pair)

lemma slot_pair_undefined: "slot_pair cmp u (One Undefined) (One Undefined)"
  by (simp add: slot_pair_def compareUnknownValues_def slot_nullish_def is_nullish_def)

lemma slot_pair_node:
  "cmp u (Val n) (Val n') = Inr (Equal, u) \<Longrightarrow> slot_pair cmp u (One (Val n)) (One (Val n'))"
  by (simp add: slot_pair_def compareUnknownValues_def slot_nullish_def is_nullish_def)

lemma limit_of_uncached:
  "compareNodesUncached vk (limit_comparer vk) () A B = Inr (r, ())
   \<Longrightarrow> limit_comparer vk () (Val A) (Val B) = Inr (r, ())"
  by (intro limit_returns uncached_limit)

lemma limit_nullish:
  "is_nullish a \<Longrightarrow> limit_comparer vk () a a = Inr (Equal, ())"
  using returns_nullish [of a a vk] by (auto intro: limit_returns)

lemma limit_deeper:
  "nonNullKeys vk \<Longrightarrow> spine Z < spine Y \<Longrightarrow> limit_comparer vk () (Val Y) (Val Z) = Inr (Invalid, ())"
  by (intro limit_returns deeper_invalid)

lemma limit_Inr: "limit_comparer vk u a b = Inr (r, u') \<Longrightarrow> returns vk a b r"
  by (auto simp: limit_comparer_def split: if_splits)

lemma core_not_chain: "ntype (core n) \<noteq> TChainExpression"
  by (induction n rule: core.induct) auto

lemma core_id: "ntype n \<noteq> TChainExpression \<Longrightarrow> core n = n"
  by (cases n) auto

lemma chain_left:
  assumes "parent h \<noteq> ParentMemberObject" "parent h \<noteq> ParentCallCallee"
    and "ntype Y \<noteq> TChainExpression"
    and "limit_comparer vk () (Val e) (Val Y) = Inr (r, ())"
  shows "limit_comparer vk () (Val (ChainExpression h e)) (Val Y) = Inr (r, ())"
  using assms
  by (intro limit_of_uncached)
     (auto simp: compareNodesUncached_def compareDifferentTypes_def
        isValidChainExpressionToLookThrough_def expression_def)

lemma chain_right:
  assumes "limit_comparer vk () (Val (ChainExpression h e)) (Val e') = Inr (r, ())"
  shows "limit_comparer vk () (Val (ChainExpression h e)) (Val (ChainExpression h' e')) = Inr (r, ())"
  using assms
  by (intro limit_of_uncached) (simp add: compareNodesUncached_def compareSameType_def expression_def)

lemma chain_right_inv:
  assumes "returns vk (Val (ChainExpression h e)) (Val (ChainExpression h' e')) r"
  shows "returns vk (Val (ChainExpression h e)) (Val e') r"
proof -
  from assms obtain d where
    d: "compareNodesNoCache d vk () (Val (ChainExpression h e)) (Val (ChainExpression h' e')) = Inr (r, ())"
    unfolding returns_def by blast
  then obtain d0 where "d = Suc d0" by (cases d) auto
  with d have "compareNodesNoCache d0 vk () (Val (ChainExpression h e)) (Val e') = Inr (r, ())"
    by (simp add: compareNodesUncached_def compareSameType_def expression_def)
  then show ?thesis unfolding returns_def by blast
qed

lemma chain_up:
  "limit_comparer vk () (Val (ChainExpression h e)) (Val (core Y)) = Inr (r, ())
   \<Longrightarrow> limit_comparer vk () (Val (ChainExpression h e)) (Val Y) = Inr (r, ())"
  by (induction Y rule: core.induct) (auto intro: chain_right)

lemma chain_down:
  "returns vk (Val (ChainExpression h e)) (Val Y) r
   \<Longrightarrow> returns vk (Val (ChainExpression h e)) (Val (core Y)) r"
  by (induction Y rule: core.induct) (auto dest: chain_right_inv)

lemma map_of_same:
  "list_all2 (\<lambda>f f'. fst f = fst f' \<and> R (snd f) (snd f')) fs fs'
   \<Longrightarrow> rel_option R (map_of fs key) (map_of fs' key)"
  by (induction fs fs' rule: list_all2_induct) auto

lemma structural_limit:
  "\<forall>B. nonNullKeys vk \<longrightarrow> reflexive_node vk A \<longrightarrow> same_structure A B
        \<longrightarrow> limit_comparer vk () (Val A) (Val B) = Inr (Equal, ())"
  "\<forall>s'. nonNullKeys vk \<longrightarrow> reflexive_slot vk s \<longrightarrow> same_slot s s'
        \<longrightarrow> slot_pair (limit_comparer vk) () s s'"
proof (induction vk A and vk s rule: reflexive_node_reflexive_slot.induct)
  case (1 vk h s)
  show ?case
    by (intro allI impI limit_of_uncached)
       (auto simp: compareNodesUncached_def compareSameType_def split: node.splits)
next
  case (2 vk h s)
  show ?case
    by (intro allI impI limit_of_uncached)
       (auto simp: compareNodesUncached_def compareSameType_def split: node.splits)
next
  case (3 vk h raw v)
  show ?case
    by (intro allI impI limit_of_uncached)
       (auto simp: compareNodesUncached_def compareSameType_def split: node.splits)
next
  case (4 vk h ck)
  show ?case
    by (intro allI impI limit_of_uncached)
       (auto simp: compareNodesUncached_def compareSameType_def split: node.splits)
next
  case (5 vk h ob p cm opt)
  show ?case
  proof (intro allI impI limit_of_uncached)
    fix B
    assume k: "nonNullKeys vk" and r: "reflexive_node vk (MemberExpression h ob p cm opt)"
      and s: "same_structure (MemberExpression h ob p cm opt) B"
    from s obtain h' ob' p' opt' where B: "B = MemberExpression h' ob' p' cm opt'"
      and so: "same_structure ob ob'" and sp: "same_structure p p'"
      by (cases B) auto
    from so have "spine ob' = spine ob" using same_spine(1) by blast
    then have "limit_comparer vk () (Val (MemberExpression h ob p cm opt)) (Val ob') = Inr (Invalid, ())"
      using k by (intro limit_deeper) simp_all
    moreover from sp have "ntype p' = ntype p" by (rule same_ntype)
    moreover from 5 k r so sp have "limit_comparer vk () (Val ob) (Val ob') = Inr (Equal, ())"
      "limit_comparer vk () (Val p) (Val p') = Inr (Equal, ())" by auto
    ultimately
    show "compareNodesUncached vk (limit_comparer vk) () (MemberExpression h ob p cm opt) B
            = Inr (Equal, ())"
      using r by (simp add: B compareNodesUncached_def compareSameType_def bind_res_def)
  qed
next
  case (6 vk h cl as ta opt)
  show ?case
  proof (intro allI impI limit_of_uncached)
    fix B
    assume k: "nonNullKeys vk" and r: "reflexive_node vk (CallExpression h cl as ta opt)"
      and s: "same_structure (CallExpression h cl as ta opt) B"
    from s obtain h' cl' as' ta' opt' where B: "B = CallExpression h' cl' as' ta' opt'"
      and sc: "same_structure cl cl'" and sa: "list_all2 same_structure as as'"
      and st: "case ta of Val t \<Rightarrow> (case ta' of Val t' \<Rightarrow> same_structure t t' | _ \<Rightarrow> False)
               | _ \<Rightarrow> ta' = ta"
      by (cases B) auto
    from sc have "spine cl' = spine cl" using same_spine(1) by blast
    then have a: "limit_comparer vk () (Val (CallExpression h cl as ta opt)) (Val cl') = Inr (Invalid, ())"
      using k by (intro limit_deeper) simp_all
    from 6(1) k r sc have b: "limit_comparer vk () (Val cl) (Val cl') = Inr (Equal, ())" by auto
    have "list_all2 (\<lambda>x x'. limit_comparer vk () (Val x) (Val x') = Inr (Equal, ())) as as'"
      using sa
    proof (rule list.rel_mono_strong)
      fix x x'
      assume "x \<in> set as" and "same_structure x x'"
      with 6(2) [of x] k r show "limit_comparer vk () (Val x) (Val x') = Inr (Equal, ())"
        by (auto simp: list_all_iff)
    qed
    then have "list_all2 (nullable_pair (limit_comparer vk) ()) (map Val as) (map Val as')"
      by (simp add: list_all2_map1 list_all2_map2 nullable_pair_def)
    then have c: "compareArrays (limit_comparer vk) () (map Val as) (Many (map Val as'))
                    = Inr (Equal, ())"
      by (rule compareArrays_pair)
    have d: "limit_comparer vk () ta ta' = Inr (Equal, ())"
      using st 6(3) k r
      by (cases ta; cases ta') (auto simp: limit_nullish is_nullish_def)
    from a b c d
    show "compareNodesUncached vk (limit_comparer vk) () (CallExpression h cl as ta opt) B
            = Inr (Equal, ())"
      by (simp add: B compareNodesUncached_def compareSameType_def bind_res_def)
  qed
next
  case (7 vk h e)
  show ?case
  proof (intro allI impI)
    fix B
    assume k: "nonNullKeys vk" and r: "reflexive_node vk (ChainExpression h e)"
      and s: "same_structure (ChainExpression h e) B"
    from s obtain h' e' where B: "B = ChainExpression h' e'" and se: "same_structure e e'"
      by (cases B) auto
    from 7 k r se have eq: "limit_comparer vk () (Val e) (Val e') = Inr (Equal, ())" by auto
    have "limit_comparer vk () (Val e) (Val (core e')) = Inr (Equal, ())"
    proof (cases "ntype e = TChainExpression")
      case True
      then obtain h2 e2 where e: "e = ChainExpression h2 e2" by (cases e) auto
      from eq have "returns vk (Val e) (Val e') Equal" by (rule limit_Inr)
      then have "returns vk (Val e) (Val (core e')) Equal" unfolding e by (rule chain_down)
      then show ?thesis by (rule limit_returns)
    next
      case False
      with se have "ntype e' \<noteq> TChainExpression" using same_ntype by force
      with eq show ?thesis by (simp add: core_id)
    qed
    with r have "limit_comparer vk () (Val (ChainExpression h e)) (Val (core e')) = Inr (Equal, ())"
      by (intro chain_left core_not_chain) simp_all
    then have "limit_comparer vk () (Val (ChainExpression h e)) (Val e') = Inr (Equal, ())"
      by (rule chain_up)
    then show "limit_comparer vk () (Val (ChainExpression h e)) (Val B) = Inr (Equal, ())"
      unfolding B by (rule chain_right)
  qed
next
  case (8 vk h e)
  show ?case
  proof (intro allI impI limit_of_uncached)
    fix B
    assume k: "nonNullKeys vk" and r: "reflexive_node vk (TSNonNullExpression h e)"
      and s: "same_structure (TSNonNullExpression h e) B"
    from s obtain h' e' where B: "B = TSNonNullExpression h' e'" and se: "same_structure e e'"
      by (cases B) auto
    from r obtain ks where ks: "vk TTSNonNullExpression = Some ks"
      by (auto split: option.splits)
    have "slot_pair (limit_comparer vk) () (get_field (TSNonNullExpression h e) key)
            (get_field B key)" if "key \<in> set ks" for key
      using that 8 [OF ks] k r se ks
      by (auto simp: B slot_pair_undefined slot_pair_node)
    with ks show "compareNodesUncached vk (limit_comparer vk) () (TSNonNullExpression h e) B
            = Inr (Equal, ())"
      by (simp add: B compareNodesUncached_def compareSameType_def compareByVisiting_pair)
  qed
next
  case (9 vk h opr l r)
  show ?case
  proof (intro allI impI limit_of_uncached)
    fix B
    assume k: "nonNullKeys vk" and rf: "reflexive_node vk (BinaryExpression h opr l r)"
      and s: "same_structure (BinaryExpression h opr l r) B"
    from s obtain h' l' r' where B: "B = BinaryExpression h' opr l' r'"
      and sl: "same_structure l l'" and sr: "same_structure r r'"
      by (cases B) auto
    from rf obtain ks where ks: "vk TBinaryExpression = Some ks"
      by (auto split: option.splits)
    have "slot_pair (limit_comparer vk) () (get_field (BinaryExpression h opr l r) key)
            (get_field B key)" if "key \<in> set ks" for key
      using that 9(1) [OF ks] 9(2) [OF ks] k rf sl sr ks
      by (auto simp: B slot_pair_undefined slot_pair_node)
    with ks show "compareNodesUncached vk (limit_comparer vk) () (BinaryExpression h opr l r) B
            = Inr (Equal, ())"
      by (simp add: B compareNodesUncached_def compareSameType_def compareByVisiting_pair)
  qed
next
  case (10 vk h opr ar)
  show ?case
  proof (intro allI impI limit_of_uncached)
    fix B
    assume k: "nonNullKeys vk" and rf: "reflexive_node vk (UnaryExpression h opr ar)"
      and s: "same_structure (UnaryExpression h opr ar) B"
    from s obtain h' ar' where B: "B = UnaryExpression h' opr ar'"
      and sa: "same_structure ar ar'"
      by (cases B) auto
    from rf obtain ks where ks: "vk TUnaryExpression = Some ks"
      by (auto split: option.splits)
    have "slot_pair (limit_comparer vk) () (get_field (UnaryExpression h opr ar) key)
            (get_field B key)" if "key \<in> set ks" for key
      using that 10 [OF ks] k rf sa ks
      by (auto simp: B slot_pair_undefined slot_pair_node)
    with ks show "compareNodesUncached vk (limit_comparer vk) () (UnaryExpression h opr ar) B
            = Inr (Equal, ())"
      by (simp add: B compareNodesUncached_def compareSameType_def compareByVisiting_pair)
  qed
next
  case (11 vk h opr l r)
  show ?case
  proof (intro allI impI limit_of_uncached)
    fix B
    assume k: "nonNullKeys vk" and rf: "reflexive_node vk (LogicalExpression h opr l r)"
      and s: "same_structure (LogicalExpression h opr l r) B"
    from s obtain h' l' r' where B: "B = LogicalExpression h' opr l' r'"
      and sl: "same_structure l l'" and sr: "same_structure r r'"
      by (cases B) auto
    from rf obtain ks where ks: "vk TLogicalExpression = Some ks"
      by (auto split: option.splits)
    have "slot_pair (limit_comparer vk) () (get_field (LogicalExpression h opr l r) key)
            (get_field B key)" if "key \<in> set ks" for key
      using that 11(1) [OF ks] 11(2) [OF ks] k rf sl sr ks
      by (auto simp: B slot_pair_undefined slot_pair_node)
    with ks show "compareNodesUncached vk (limit_comparer vk) () (LogicalExpression h opr l r) B
            = Inr (Equal, ())"
      by (simp add: B compareNodesUncached_def compareSameType_def compareByVisiting_pair)
  qed
next
  case (12 vk h k fs)
  show ?case
  proof (intro allI impI limit_of_uncached)
    fix B
    assume kk: "nonNullKeys vk" and rf: "reflexive_node vk (GenericNode h k fs)"
      and s: "same_structure (GenericNode h k fs) B"
    from s obtain h' fs' where B: "B = GenericNode h' k fs'"
      and sf: "list_all2 (\<lambda>f f'. fst f = fst f' \<and> same_slot (snd f) (snd f')) fs fs'"
      by (cases B) auto
    from rf obtain ks where ks: "vk (TKind k) = Some ks"
      and ra: "list_all (\<lambda>f. fst f \<in> set ks \<longrightarrow> reflexive_slot vk (snd f)) fs"
      and nc: "\<not> never_comparable k"
      by (auto split: option.splits)
    have "slot_pair (limit_comparer vk) () (get_field (GenericNode h k fs) key) (get_field B key)"
      if key: "key \<in> set ks" for key
    proof -
      from sf have rel: "rel_option same_slot (map_of fs key) (map_of fs' key)"
        by (rule map_of_same)
      show ?thesis
      proof (cases "map_of fs key")
        case None
        with rel show ?thesis by (simp add: B slot_pair_undefined)
      next
        case (Some sl)
        with rel obtain sl' where Some': "map_of fs' key = Some sl'" and ss: "same_slot sl sl'"
          by (cases "map_of fs' key") auto
        from Some have mem: "(key, sl) \<in> set fs" by (rule map_of_SomeD)
        with ra key have "reflexive_slot vk sl" by (auto simp: list_all_iff)
        with 12 [OF ks mem] key kk ss have "slot_pair (limit_comparer vk) () sl sl'" by auto
        with Some Some' show ?thesis by (simp add: B)
      qed
    qed
    with ks nc show "compareNodesUncached vk (limit_comparer vk) () (GenericNode h k fs) B
            = Inr (Equal, ())"
      by (simp add: B compareNodesUncached_def compareSameType_def compareByVisiting_pair)
  qed
next
  case (13 vk h qs es)
  show ?case by simp
next
  case (14 vk h qs ts)
  show ?case by simp
next
  case (15 vk v)
  show ?case
  proof (intro allI impI)
    fix s'
    assume k: "nonNullKeys vk" and r: "reflexive_slot vk (One v)" and s: "same_slot (One v) s'"
    show "slot_pair (limit_comparer vk) () (One v) s'"
    proof (cases v)
      case (Val n)
      with s obtain n' where s': "s' = One (Val n')" and sn: "same_structure n n'"
        by (cases s') (auto split: nullable.splits)
      with 15 [OF Val] k r Val show ?thesis by (auto simp: slot_pair_node)
    next
      case Undefined
      with s show ?thesis
        by (cases s') (auto simp: slot_pair_def compareUnknownValues_def slot_nullish_def is_nullish_def)
    next
      case Null
      with s show ?thesis
        by (cases s') (auto simp: slot_pair_def compareUnknownValues_def slot_nullish_def is_nullish_def)
    qed
  qed
next
  case (16 vk vs)
  show ?case
  proof (intro allI impI)
    fix s'
    assume k: "nonNullKeys vk" and r: "reflexive_slot vk (Many vs)" and s: "same_slot (Many vs) s'"
    from s obtain vs' where s': "s' = Many vs'"
      and sv: "list_all2 (\<lambda>v v'. case v of
                 Val n \<Rightarrow> (case v' of Val n' \<Rightarrow> same_structure n n' | _ \<Rightarrow> False)
               | _ \<Rightarrow> v' = v) vs vs'"
      by (cases s') auto
    have "list_all2 (nullable_pair (limit_comparer vk) ()) vs vs'"
      using sv
    proof (rule list.rel_mono_strong)
      fix v v'
      assume "v \<in> set vs" and "case v of
                 Val n \<Rightarrow> (case v' of Val n' \<Rightarrow> same_structure n n' | _ \<Rightarrow> False)
               | _ \<Rightarrow> v' = v"
      with 16 [of v] k r show "nullable_pair (limit_comparer vk) () v v'"
        by (cases v; cases v') (auto simp: nullable_pair_def list_all_iff)
    qed
    then show "slot_pair (limit_comparer vk) () (Many vs) s'"
      by (simp add: s' slot_pair_def compareArrays_pair)
  qed
qed

text \<open>
  Claim C1, as stated, fails: an object literal compared with itself gives \<open>Invalid\<close>.
\<close>

theorem object_literal_not_reflexive:
  "outcome (compareNodes 3 exampleVisitorKeys emptyCache (Val ex4_object) (Val ex4_object))
     = Inr Invalid"
  by code_simp

text \<open>
  Claim C1, amended. For every node \<open>A\<close> of the class \<open>reflexive_node\<close> and every tree
  \<open>B\<close> structurally identical to it, \<open>A\<close> itself among them, \<open>compareNodes(A, B)\<close>
  returns \<open>Equal\<close>, from any cache that holds only results of the comparison and on every
  stack deep enough.
\<close>

theorem structurally_identical_equal:
  assumes "cache_sound vk c" "nonNullKeys vk" "reflexive_node vk A" "same_structure A B"
  shows "(\<exists>d. \<forall>d'\<ge>d. \<exists>c'. compareNodes d' vk c (Val A) (Val B) = Inr (Equal, c'))
         \<and> (\<exists>d. \<forall>d'\<ge>d. \<exists>c'. compareNodes d' vk c (Val A) (Val A) = Inr (Equal, c'))"
proof -
  have run: "\<exists>d. \<forall>d'\<ge>d. \<exists>c'. compareNodes d' vk c (Val A) (Val X) = Inr (Equal, c')"
    if "same_structure A X" for X
  proof -
    from assms(2,3) that have "limit_comparer vk () (Val A) (Val X) = Inr (Equal, ())"
      using structural_limit(1) by blast
    then have "returns vk (Val A) (Val X) Equal" by (rule limit_Inr)
    then obtain d where d: "compareNodesNoCache d vk () (Val A) (Val X) = Inr (Equal, ())"
      unfolding returns_def by blast
    have "\<exists>c'. compareNodes d' vk c (Val A) (Val X) = Inr (Equal, c')" if "d \<le> d'" for d'
    proof -
      from that d have "compareNodesNoCache d' vk () (Val A) (Val X) = Inr (Equal, ())"
        by (rule noCache_mono)
      with noCache_to_cached [of vk d'] assms(1) show ?thesis
        unfolding cmp_rel_def ev_rel_def by (metis le_refl)
    qed
    then show ?thesis by blast
  qed
  have "same_structure A A" using same_structure_refl(1) by blast
  with run assms(4) show ?thesis by blast
qed

theorem structurally_identical_equal_witness:
  "cache_sound exampleVisitorKeys emptyCache \<and> nonNullKeys exampleVisitorKeys
   \<and> reflexive_node exampleVisitorKeys ex3_xy \<and> same_structure ex3_xy ex1_xy \<and> ex3_xy \<noteq> ex1_xy
   \<and> (\<exists>d. \<forall>d'\<ge>d. \<exists>c'. compareNodes d' exampleVisitorKeys emptyCache (Val ex3_xy) (Val ex1_xy)
                            = Inr (Equal, c'))
   \<and> (\<exists>d. \<forall>d'\<ge>d. \<exists>c'. compareNodes d' exampleVisitorKeys emptyCache (Val ex3_xy) (Val ex3_xy)
                            = Inr (Equal, c'))"
proof -
  have a: "cache_sound exampleVisitorKeys emptyCache"
    by (simp add: cache_sound_def emptyCache_def)
  have b: "nonNullKeys exampleVisitorKeys"
    by (simp add: nonNullKeys_def exampleVisitorKeys_def)
  have c: "reflexive_node exampleVisitorKeys ex3_xy"
    by (simp add: ex3_xy_def ex3_x2_def ex3_y_def)
  have d: "same_structure ex3_xy ex1_xy"
    by (simp add: ex3_xy_def ex3_x2_def ex3_y_def ex1_xy_def ex1_x3_def ex1_y_def)
  have e: "ex3_xy \<noteq> ex1_xy"
    by (simp add: ex3_xy_def ex1_xy_def hdr_at_def)
  from a b c d e structurally_identical_equal [OF a b c d] show ?thesis by blast
qed

end
